theory Spec2Isabelle
  imports Main "HOL-Library.Word" "HOL-Library.Multiset" "HOL-Library.Signed_Division"
    "HOL-Library.AList"
begin

section \<open>Batch payments (go/stellar/batch.go)\<close>

text \<open>
  The development follows \<^verbatim>\<open>go/stellar/batch.go\<close>: \<^verbatim>\<open>Batch\<close>, \<^verbatim>\<open>PrepareBatchPayments\<close>,
  \<^verbatim>\<open>prepareBatchPayment\<close> with its direct and relay paths, \<^verbatim>\<open>submitBatchTx\<close>,
  \<^verbatim>\<open>makeResultError\<close> and \<^verbatim>\<open>calculateStats\<close>.

  Everything batch.go calls but does not define (recipient lookup, the signer and its sequence
  provider, the wallet state, the listener, the clock, the status enum of the protocol package)
  is a field of one environment record, so that every theorem holds for every behaviour of
  these collaborators. A Go \<^verbatim>\<open>error\<close> is its message; a result with an error is a sum with
  \<open>Inl\<close> for the error.
\<close>

subsection \<open>Data\<close>

type_synonym TimeMs = "64 word"  \<comment> \<open>int64 milliseconds; read signed with \<open>sint\<close>\<close>
type_synonym TransactionID = string
type_synonym AccountID = string
type_synonym UserVersion = string
type_synonym PaymentStatus = int  \<comment> \<open>stellar1.PaymentStatus, an integer enum\<close>

text \<open>Go's \<^verbatim>\<open>/\<close> on int64 truncates towards zero and wraps at the one overflowing quotient.\<close>

definition int64_div :: "64 word \<Rightarrow> 64 word \<Rightarrow> 64 word" where
  "int64_div a b = word_of_int (sint a sdiv sint b)"

record BatchPaymentArg =
  arg_Recipient :: string
  arg_Amount :: string
  arg_Message :: string

record Recipient =
  rcp_Input :: string
  rcp_User :: "UserVersion option"      \<comment> \<open>\<^verbatim>\<open>User *User\<close>, of which only \<^verbatim>\<open>UV\<close> is read\<close>
  rcp_AccountID :: "string option"

record SignResult =
  sr_Seqno :: "64 word"
  sr_Signed :: string
  sr_TxHash :: string

record NoteContents =
  note_Note :: string
  note_StellarID :: TransactionID

record relays_Input =
  ri_From :: string
  ri_AmountXLM :: string
  ri_Note :: string
  ri_EncryptFor :: string

record relays_Output =
  ro_FundTx :: SignResult
  ro_RelayAccountID :: AccountID
  ro_EncryptedB64 :: string

record PaymentDirectPost =
  pd_FromDeviceID :: string
  pd_To :: "UserVersion option"
  pd_NoteB64 :: string
  pd_SignedTransaction :: string
  pd_QuickReturn :: bool

record PaymentRelayPost =
  pr_FromDeviceID :: string
  pr_To :: "UserVersion option"
  pr_ToAssertion :: string
  pr_RelayAccount :: AccountID
  pr_TeamID :: string
  pr_BoxB64 :: string
  pr_SignedTransaction :: string
  pr_QuickReturn :: bool

record PaymentResult =
  sub_StellarID :: TransactionID
  sub_Pending :: bool

text \<open>\<^verbatim>\<open>MiniPrepared\<close>, with the fields batch.go reads and writes. A field that the Go code
  leaves out of a composite literal has its zero value.\<close>

record MiniPrepared =
  mp_Username :: string
  mp_Direct :: "PaymentDirectPost option"
  mp_Relay :: "PaymentRelayPost option"
  mp_TxID :: TransactionID
  mp_Seqno :: "64 word"
  mp_Error :: "string option"

record BatchPaymentResult =
  bp_Username :: string
  bp_StartTime :: TimeMs
  bp_SubmittedTime :: TimeMs
  bp_EndTime :: TimeMs
  bp_TxID :: TransactionID
  bp_Status :: PaymentStatus
  bp_StatusDescription :: string
  bp_Error :: "string option"           \<comment> \<open>\<^verbatim>\<open>*BatchPaymentError\<close>, its \<^verbatim>\<open>Message\<close>\<close>

record BatchResultLocal =
  res_StartTime :: TimeMs
  res_PreparedTime :: TimeMs
  res_AllSubmittedTime :: TimeMs
  res_EndTime :: TimeMs
  res_Payments :: "BatchPaymentResult list"
  res_OverallDurationMs :: TimeMs
  res_PrepareDurationMs :: TimeMs
  res_SubmitDurationMs :: TimeMs
  res_WaitDurationMs :: TimeMs
  res_CountSuccess :: int
  res_CountPending :: int
  res_CountError :: int
  res_AvgDurationMs :: TimeMs
  res_AvgSuccessDurationMs :: TimeMs
  res_AvgErrorDurationMs :: TimeMs

record BatchLocalArg =
  arg_BatchID :: string
  arg_TimeoutSecs :: int
  arg_Payments :: "BatchPaymentArg list"

subsection \<open>The environment\<close>

text \<open>
  \<open>'w\<close> is the state of everything outside the process that the batch changes: the sequence
  provider behind the signer, the wallet state, the server. The three named values of the
  status enum and \<^verbatim>\<open>PaymentStatusRevMap\<close> are declared in the protocol package; \<open>now k\<close> is
  what the \<open>k\<close>-th call of \<^verbatim>\<open>time.Now()\<close> of a run reads, as a \<^verbatim>\<open>TimeMs\<close>.
\<close>

record 'w env =
  PaymentStatus_PENDING :: PaymentStatus
  PaymentStatus_COMPLETED :: PaymentStatus
  PaymentStatus_ERROR :: PaymentStatus
  PaymentStatusRevMap :: "PaymentStatus \<Rightarrow> string"
  now :: "nat \<Rightarrow> TimeMs"
  LookupSenderSeed :: "string + (AccountID \<times> string)"
  NewNormalizedUsername :: "string \<Rightarrow> string"
  LookupRecipient :: "string \<Rightarrow> string + Recipient"
  isAccountFunded :: "AccountID \<Rightarrow> string + bool"
  isAmountLessThanMin :: "string \<Rightarrow> string \<Rightarrow> bool"
  DeviceID :: string
  PaymentXLMTransaction :: "'w \<Rightarrow> string \<Rightarrow> string \<Rightarrow> string \<Rightarrow> (string + SignResult) \<times> 'w"
  CreateAccountXLMTransaction :: "'w \<Rightarrow> string \<Rightarrow> string \<Rightarrow> string \<Rightarrow> (string + SignResult) \<times> 'w"
  NoteEncryptB64 :: "NoteContents \<Rightarrow> UserVersion option \<Rightarrow> string \<times> string option"
  relays_GetKey :: "Recipient \<Rightarrow> string + (string \<times> string)"
  relays_Create :: "'w \<Rightarrow> relays_Input \<Rightarrow> (string + relays_Output) \<times> 'w"
  GetListener :: "'w \<Rightarrow> string option \<times> 'w"
  RemoveListener :: "'w \<Rightarrow> 'w"
  AddPendingTx :: "'w \<Rightarrow> AccountID \<Rightarrow> TransactionID \<Rightarrow> 64 word \<Rightarrow> 'w"
  SubmitPayment :: "'w \<Rightarrow> PaymentDirectPost \<Rightarrow> (string + PaymentResult) \<times> 'w"
  SubmitRelayPayment :: "'w \<Rightarrow> PaymentRelayPost \<Rightarrow> (string + PaymentResult) \<times> 'w"

text \<open>The state of a run: how often the clock has been read, and the outside world.\<close>

record 'w state =
  clockReads :: nat
  world :: 'w
  chatsSent :: "(string \<times> TransactionID) list"  \<comment> \<open>the calls of \<^verbatim>\<open>chatSendPaymentMessageTo\<close>\<close>

definition time_Now :: "'w env \<Rightarrow> 'w state \<Rightarrow> TimeMs \<times> 'w state" where
  "time_Now env s = (now env (clockReads s), s\<lparr>clockReads := Suc (clockReads s)\<rparr>)"

subsection \<open>calculateStats\<close>

record stats_vars =
  durationTotal :: TimeMs
  durationSuccess :: TimeMs
  durationError :: TimeMs
  countDone :: "64 word"

text \<open>The body of \<^verbatim>\<open>for _, p := range res.Payments\<close>. The three counters are Go \<^verbatim>\<open>int\<close>s that
  start at zero in \<^verbatim>\<open>Batch\<close> and grow by at most the length of a slice, so they are modelled
  unbounded.\<close>

definition statsBody ::
  "'w env \<Rightarrow> BatchPaymentResult \<Rightarrow> BatchResultLocal \<times> stats_vars \<Rightarrow> BatchResultLocal \<times> stats_vars"
where
  "statsBody env p rv =
    (case rv of (res, v) \<Rightarrow>
      let duration = bp_EndTime p - bp_StartTime p;
          v1 = v\<lparr>durationTotal := durationTotal v + duration\<rparr>
      in if bp_Status p = PaymentStatus_COMPLETED env then
           (res\<lparr>res_CountSuccess := res_CountSuccess res + 1\<rparr>,
            v1\<lparr>countDone := countDone v1 + 1, durationSuccess := durationSuccess v1 + duration\<rparr>)
         else if bp_Status p = PaymentStatus_PENDING env then
           (res\<lparr>res_CountPending := res_CountPending res + 1\<rparr>, v1)
         else
           (res\<lparr>res_CountError := res_CountError res + 1\<rparr>,
            v1\<lparr>countDone := countDone v1 + 1, durationError := durationError v1 + duration\<rparr>))"

fun statsLoop ::
  "'w env \<Rightarrow> BatchPaymentResult list \<Rightarrow> BatchResultLocal \<times> stats_vars \<Rightarrow> BatchResultLocal \<times> stats_vars"
where
  "statsLoop env [] rv = rv"
| "statsLoop env (p # ps) rv = statsLoop env ps (statsBody env p rv)"

definition calculateStats :: "'w env \<Rightarrow> BatchResultLocal \<Rightarrow> BatchResultLocal" where
  "calculateStats env res =
    (let res1 = res\<lparr>res_OverallDurationMs := res_EndTime res - res_StartTime res,
                    res_PrepareDurationMs := res_PreparedTime res - res_StartTime res,
                    res_SubmitDurationMs := res_AllSubmittedTime res - res_PreparedTime res,
                    res_WaitDurationMs := res_EndTime res - res_AllSubmittedTime res\<rparr>;
         rv = statsLoop env (res_Payments res1)
                (res1, \<lparr>durationTotal = 0, durationSuccess = 0, durationError = 0, countDone = 0\<rparr>);
         res2 = fst rv;
         v = snd rv;
         res3 = (if 0 < sint (countDone v)
                 then res2\<lparr>res_AvgDurationMs := int64_div (durationTotal v) (countDone v)\<rparr>
                 else res2);
         res4 = (if res_CountSuccess res3 > 0
                 then res3\<lparr>res_AvgSuccessDurationMs :=
                         int64_div (durationSuccess v) (word_of_int (res_CountSuccess res3))\<rparr>
                 else res3)
     in if res_CountError res4 > 0
        then res4\<lparr>res_AvgErrorDurationMs :=
                int64_div (durationError v) (word_of_int (res_CountError res4))\<rparr>
        else res4)"

subsection \<open>Preparing one payment\<close>

definition minAmountRelayXLM :: string where
  "minAmountRelayXLM = ''2.01''"

definition minAmountCreateAccountXLM :: string where
  "minAmountCreateAccountXLM = ''1''"

text \<open>
  A preparation runs in a goroutine of its own. \<open>None\<close> is a run-time panic there (a nil
  pointer dereference), which ends the process: nothing is returned. The lookups read the
  outside world and are functions of their arguments; only the signer, which draws the
  sequence number, changes it.
\<close>

definition prepareBatchPaymentDirect ::
  "'w env \<Rightarrow> 'w \<Rightarrow> string \<Rightarrow> BatchPaymentArg \<Rightarrow> Recipient \<Rightarrow> (MiniPrepared \<times> 'w) option"
where
  "prepareBatchPaymentDirect env w senderSeed payment recipient =
    (let result = \<lparr>mp_Username = NewNormalizedUsername env (arg_Recipient payment),
                    mp_Direct = None, mp_Relay = None, mp_TxID = [], mp_Seqno = 0,
                    mp_Error = None\<rparr>
     in case rcp_AccountID recipient of
          None \<Rightarrow> None
        | Some accountID \<Rightarrow>
          (case isAccountFunded env accountID of
             Inl err \<Rightarrow> Some (result\<lparr>mp_Error := Some err\<rparr>, w)
           | Inr funded \<Rightarrow>
             if \<not> funded \<and> isAmountLessThanMin env (arg_Amount payment) minAmountCreateAccountXLM
             then Some (result\<lparr>mp_Error := Some (''you must send at least '' @
                          minAmountCreateAccountXLM @ '' XLM to fund the account for '' @
                          arg_Recipient payment)\<rparr>, w)
             else
               (case rcp_User recipient of
                  None \<Rightarrow> None  \<comment> \<open>\<^verbatim>\<open>&recipient.User.UV\<close> with a nil \<^verbatim>\<open>User\<close>\<close>
                | Some uv \<Rightarrow>
                  let direct = \<lparr>pd_FromDeviceID = DeviceID env, pd_To = Some uv, pd_NoteB64 = [],
                                pd_SignedTransaction = [], pd_QuickReturn = True\<rparr>;
                      result1 = result\<lparr>mp_Direct := Some direct\<rparr>;
                      signed = (if funded
                                then PaymentXLMTransaction env w senderSeed accountID
                                       (arg_Amount payment)
                                else CreateAccountXLMTransaction env w senderSeed accountID
                                       (arg_Amount payment));
                      w1 = snd signed
                  in case fst signed of
                       Inl err \<Rightarrow> Some (result1\<lparr>mp_Error := Some err\<rparr>, w1)
                     | Inr signResult \<Rightarrow>
                       let enc = (if length (arg_Message payment) > 0
                                  then NoteEncryptB64 env
                                         \<lparr>note_Note = arg_Message payment,
                                          note_StellarID = sr_TxHash signResult\<rparr>
                                         (rcp_User recipient)
                                  else (pd_NoteB64 direct, None));
                           direct1 = direct\<lparr>pd_NoteB64 := fst enc\<rparr>
                       in case snd enc of
                            Some err \<Rightarrow>
                              Some (result1\<lparr>mp_Direct := Some direct1,
                                      mp_Error := Some (''error encrypting note: '' @ err)\<rparr>, w1)
                          | None \<Rightarrow>
                              Some (result1\<lparr>mp_Direct :=
                                        Some (direct1\<lparr>pd_SignedTransaction := sr_Signed signResult\<rparr>),
                                      mp_Seqno := sr_Seqno signResult,
                                      mp_TxID := sr_TxHash signResult\<rparr>, w1))))"

definition prepareBatchPaymentRelay ::
  "'w env \<Rightarrow> 'w \<Rightarrow> string \<Rightarrow> BatchPaymentArg \<Rightarrow> Recipient \<Rightarrow> MiniPrepared \<times> 'w"
where
  "prepareBatchPaymentRelay env w senderSeed payment recipient =
    (let result = \<lparr>mp_Username = NewNormalizedUsername env (arg_Recipient payment),
                    mp_Direct = None, mp_Relay = None, mp_TxID = [], mp_Seqno = 0,
                    mp_Error = None\<rparr>
     in if isAmountLessThanMin env (arg_Amount payment) minAmountRelayXLM
        then (result\<lparr>mp_Error := Some (''you must send at least '' @ minAmountRelayXLM @
                        '' XLM to fund the account for '' @ arg_Recipient payment)\<rparr>, w)
        else
          (case relays_GetKey env recipient of
             Inl err \<Rightarrow> (result\<lparr>mp_Error := Some err\<rparr>, w)
           | Inr key \<Rightarrow>
             let created = relays_Create env w
                             \<lparr>ri_From = senderSeed, ri_AmountXLM = arg_Amount payment,
                              ri_Note = arg_Message payment, ri_EncryptFor = fst key\<rparr>;
                 w1 = snd created
             in case fst created of
                  Inl err \<Rightarrow> (result\<lparr>mp_Error := Some err\<rparr>, w1)
                | Inr relay \<Rightarrow>
                  let post = \<lparr>pr_FromDeviceID = DeviceID env, pr_To = rcp_User recipient,
                              pr_ToAssertion = rcp_Input recipient,
                              pr_RelayAccount = ro_RelayAccountID relay, pr_TeamID = snd key,
                              pr_BoxB64 = ro_EncryptedB64 relay,
                              pr_SignedTransaction = sr_Signed (ro_FundTx relay),
                              pr_QuickReturn = True\<rparr>
                  in (result\<lparr>mp_Relay := Some post,
                             mp_Seqno := sr_Seqno (ro_FundTx relay),
                             mp_TxID := sr_TxHash (ro_FundTx relay)\<rparr>, w1)))"

definition prepareBatchPayment ::
  "'w env \<Rightarrow> 'w \<Rightarrow> string \<Rightarrow> BatchPaymentArg \<Rightarrow> (MiniPrepared \<times> 'w) option"
where
  "prepareBatchPayment env w senderSeed payment =
    (case LookupRecipient env (arg_Recipient payment) of
       Inl err \<Rightarrow>
         Some (\<lparr>mp_Username = NewNormalizedUsername env (arg_Recipient payment),
                mp_Direct = None, mp_Relay = None, mp_TxID = [], mp_Seqno = 0,
                mp_Error = Some ''error looking up recipient''\<rparr>, w)
     | Inr recipient \<Rightarrow>
         if rcp_AccountID recipient = None
         then Some (prepareBatchPaymentRelay env w senderSeed payment recipient)
         else prepareBatchPaymentDirect env w senderSeed payment recipient)"

subsection \<open>PrepareBatchPayments\<close>

text \<open>
  One goroutine per payment. Each touches the outside world at most once, atomically (the
  sequence provider is locked), so a run is fixed by two orders: \<open>sched\<close>, the order in which
  the goroutines reach the signer, and \<open>arrival\<close>, the order in which their results are
  received from the channel; both are permutations of the indices \<open>0..<n\<close>.
\<close>

definition is_interleaving :: "nat \<Rightarrow> nat list \<Rightarrow> bool" where
  "is_interleaving n xs \<longleftrightarrow> mset xs = mset [0..<n]"

fun prepareAll ::
  "'w env \<Rightarrow> 'w \<Rightarrow> string \<Rightarrow> BatchPaymentArg list \<Rightarrow> (MiniPrepared list \<times> 'w) option"
where
  "prepareAll env w senderSeed [] = Some ([], w)"
| "prepareAll env w senderSeed (p # ps) =
    (case prepareBatchPayment env w senderSeed p of
       None \<Rightarrow> None
     | Some (m, w1) \<Rightarrow>
       (case prepareAll env w1 senderSeed ps of
          None \<Rightarrow> None
        | Some (ms, w2) \<Rightarrow> Some (m # ms, w2)))"

text \<open>
  \<^verbatim>\<open>sort.Slice\<close> orders by \<^verbatim>\<open>Seqno\<close> and promises nothing for equal keys. The model sorts
  stably (insertion sort); as the arrival order is arbitrary, every result of an unstable
  sort is the result of the stable one for some arrival order. The entries are pointers to
  the values the goroutines returned, hence \<open>Some\<close>.
\<close>

definition PrepareBatchPayments ::
  "'w env \<Rightarrow> 'w \<Rightarrow> string \<Rightarrow> BatchPaymentArg list \<Rightarrow> nat list \<Rightarrow> nat list
    \<Rightarrow> ((MiniPrepared option list \<times> string option) \<times> 'w) option"
where
  "PrepareBatchPayments env w senderSeed payments sched arrival =
    (case prepareAll env w senderSeed (map ((!) payments) sched) of
       None \<Rightarrow> None
     | Some (finished, w1) \<Rightarrow>
       let received = map ((!) finished) arrival;
           preparedList = map Some (sort_key mp_Seqno received)
       in Some ((preparedList, None), w1))"

subsection \<open>Submitting\<close>

definition makeResultError ::
  "'w env \<Rightarrow> 'w state \<Rightarrow> BatchPaymentResult \<Rightarrow> string \<Rightarrow> BatchPaymentResult \<times> 'w state"
where
  "makeResultError env s res err =
    (let tn = time_Now env s
     in (res\<lparr>bp_EndTime := fst tn, bp_Error := Some err,
             bp_Status := PaymentStatus_ERROR env\<rparr>, snd tn))"

definition submitBatchTx ::
  "'w env \<Rightarrow> 'w state \<Rightarrow> AccountID \<Rightarrow> MiniPrepared \<Rightarrow> BatchPaymentResult
    \<Rightarrow> BatchPaymentResult \<times> 'w state"
where
  "submitBatchTx env s senderAccountID prepared bpResult =
    (let w1 = AddPendingTx env (world s) senderAccountID (mp_TxID prepared) (mp_Seqno prepared);
         submitted =
           (case mp_Direct prepared of
              Some direct \<Rightarrow> SubmitPayment env w1 direct
            | None \<Rightarrow>
              (case mp_Relay prepared of
                 Some relay \<Rightarrow> SubmitRelayPayment env w1 relay
               | None \<Rightarrow> (Inl ''no prepared direct or relay payment'', w1)));
         tn = time_Now env (s\<lparr>world := snd submitted\<rparr>);
         bpResult1 = bpResult\<lparr>bp_SubmittedTime := fst tn\<rparr>;
         s1 = snd tn
     in case fst submitted of
          Inl err \<Rightarrow> makeResultError env s1 bpResult1 err
        | Inr submitRes \<Rightarrow>
          let bpResult2 = bpResult1\<lparr>bp_TxID := sub_StellarID submitRes\<rparr>
          in if sub_Pending submitRes
             then (bpResult2\<lparr>bp_Status := PaymentStatus_PENDING env\<rparr>, s1)
             else (let tn2 = time_Now env s1
                   in (bpResult2\<lparr>bp_Status := PaymentStatus_COMPLETED env,
                                  bp_EndTime := fst tn2\<rparr>, snd tn2)))"

definition zeroBatchPaymentResult :: BatchPaymentResult where
  "zeroBatchPaymentResult =
    \<lparr>bp_Username = [], bp_StartTime = 0, bp_SubmittedTime = 0, bp_EndTime = 0, bp_TxID = [],
     bp_Status = 0, bp_StatusDescription = [], bp_Error = None\<rparr>"

text \<open>The body of the submit loop for a non-nil \<^verbatim>\<open>prepared[i]\<close>; \<open>waiting\<close> is the Go map
  from transaction id to index, kept as an association list with one pair per key.\<close>

definition submitOne ::
  "'w env \<Rightarrow> AccountID \<Rightarrow> MiniPrepared \<Rightarrow> nat
    \<Rightarrow> BatchPaymentResult list \<times> (TransactionID \<times> nat) list \<times> 'w state
    \<Rightarrow> BatchPaymentResult list \<times> (TransactionID \<times> nat) list \<times> 'w state"
where
  "submitOne env senderAccountID prepared i acc =
    (case acc of (resultList, waiting, s) \<Rightarrow>
      let tn = time_Now env s;
          bpResult = zeroBatchPaymentResult\<lparr>bp_Username := mp_Username prepared,
                                             bp_StartTime := fst tn\<rparr>;
          done = (case mp_Error prepared of
                    Some err \<Rightarrow> makeResultError env (snd tn) bpResult err
                  | None \<Rightarrow> submitBatchTx env (snd tn) senderAccountID prepared bpResult);
          waiting1 = (if mp_Error prepared = None \<and>
                         bp_Status (fst done) = PaymentStatus_PENDING env
                      then AList.update (bp_TxID (fst done)) i waiting
                      else waiting);
          bpResult1 = (fst done)\<lparr>bp_StatusDescription :=
                                   PaymentStatusRevMap env (bp_Status (fst done))\<rparr>
      in (resultList[i := bpResult1], waiting1, snd done))"

text \<open>\<^verbatim>\<open>for i := 0; i < len(prepared); i++\<close>, over the entries from index \<open>i\<close> on. \<open>Inl\<close> is
  the early return at a nil entry.\<close>

fun submitLoop ::
  "'w env \<Rightarrow> AccountID \<Rightarrow> MiniPrepared option list \<Rightarrow> nat
    \<Rightarrow> BatchPaymentResult list \<times> (TransactionID \<times> nat) list \<times> 'w state
    \<Rightarrow> string \<times> 'w state + BatchPaymentResult list \<times> (TransactionID \<times> nat) list \<times> 'w state"
where
  "submitLoop env senderAccountID [] i acc = Inr acc"
| "submitLoop env senderAccountID (None # rest) i acc =
    Inl (''batch prepare failed'', snd (snd acc))"
| "submitLoop env senderAccountID (Some prepared # rest) i acc =
    submitLoop env senderAccountID rest (Suc i) (submitOne env senderAccountID prepared i acc)"

subsection \<open>Waiting for the status updates\<close>

text \<open>What one \<^verbatim>\<open>select\<close> of the wait loop receives: the 5 second timer, with the
  \<^verbatim>\<open>time.Since(startTime)\<close> read then (nanoseconds), or an update from the listener.\<close>

datatype event = Tick "64 word" | Update TransactionID PaymentStatus

record 'w wait_state =
  resultList :: "BatchPaymentResult list"
  waiting :: "(TransactionID \<times> nat) list"
  waitingCount :: int
  timedOut :: bool
  run :: "'w state"

text \<open>One iteration of the wait loop. \<open>None\<close> is the index panic of \<^verbatim>\<open>resultList[index]\<close>.\<close>

definition waitStep :: "'w env \<Rightarrow> BatchLocalArg \<Rightarrow> event \<Rightarrow> 'w wait_state \<Rightarrow> 'w wait_state option"
where
  "waitStep env arg ev ws =
    (case ev of
       Tick since \<Rightarrow>
         if sint (word_of_int (arg_TimeoutSecs arg) * 1000000000 :: 64 word) < sint since
         then Some (ws\<lparr>timedOut := True\<rparr>)
         else Some ws
     | Update txID status \<Rightarrow>
         (case map_of (waiting ws) txID of
            None \<Rightarrow> Some ws
          | Some index \<Rightarrow>
            if \<not> index < length (resultList ws) then None
            else
              let r1 = (resultList ws ! index)\<lparr>bp_Status := status,
                          bp_StatusDescription := PaymentStatusRevMap env status\<rparr>;
                  ws1 = ws\<lparr>resultList := (resultList ws)[index := r1]\<rparr>;
                  ws2 = (if status \<noteq> PaymentStatus_PENDING env
                         then (let tn = time_Now env (run ws1)
                               in ws1\<lparr>waitingCount := waitingCount ws1 - 1,
                                      resultList := (resultList ws1)[index := r1\<lparr>bp_EndTime := fst tn\<rparr>],
                                      waiting := AList.delete txID (waiting ws1),
                                      run := snd tn\<rparr>)
                         else ws1)
              in if status = PaymentStatus_COMPLETED env
                 then Some (ws2\<lparr>run := (run ws2)\<lparr>chatsSent :=
                               chatsSent (run ws2) @ [(bp_Username (resultList ws2 ! index), txID)]\<rparr>\<rparr>)
                 else Some ws2))"

text \<open>\<^verbatim>\<open>for waitingCount > 0 && !timedOut\<close>. The list holds the events of the run in the order
  the loop receives them; a list that ends while the loop still waits describes no return of
  \<^verbatim>\<open>Batch\<close> (\<open>None\<close>).\<close>

fun waitLoop :: "'w env \<Rightarrow> BatchLocalArg \<Rightarrow> event list \<Rightarrow> 'w wait_state \<Rightarrow> 'w wait_state option"
where
  "waitLoop env arg [] ws = (if waitingCount ws > 0 \<and> \<not> timedOut ws then None else Some ws)"
| "waitLoop env arg (ev # evs) ws =
    (if waitingCount ws > 0 \<and> \<not> timedOut ws
     then (case waitStep env arg ev ws of None \<Rightarrow> None | Some ws1 \<Rightarrow> waitLoop env arg evs ws1)
     else Some ws)"

subsection \<open>Batch\<close>

definition zeroBatchResultLocal :: BatchResultLocal where
  "zeroBatchResultLocal =
    \<lparr>res_StartTime = 0, res_PreparedTime = 0, res_AllSubmittedTime = 0, res_EndTime = 0,
     res_Payments = [], res_OverallDurationMs = 0, res_PrepareDurationMs = 0,
     res_SubmitDurationMs = 0, res_WaitDurationMs = 0, res_CountSuccess = 0,
     res_CountPending = 0, res_CountError = 0, res_AvgDurationMs = 0,
     res_AvgSuccessDurationMs = 0, res_AvgErrorDurationMs = 0\<rparr>"

text \<open>The first \<^verbatim>\<open>defer\<close>: it runs last, on every return, and sets the result's end time if
  none is set.\<close>

definition deferEndTime ::
  "'w env \<Rightarrow> BatchResultLocal \<Rightarrow> string option \<Rightarrow> 'w state
    \<Rightarrow> (BatchResultLocal \<times> string option) \<times> 'w state"
where
  "deferEndTime env res err s =
    (if res_EndTime res = 0
     then (let tn = time_Now env s in ((res\<lparr>res_EndTime := fst tn\<rparr>, err), snd tn))
     else ((res, err), s))"

text \<open>The second \<^verbatim>\<open>defer\<close>, registered once the listener exists.\<close>

definition deferRemoveListener ::
  "'w env \<Rightarrow> BatchResultLocal \<Rightarrow> string option \<Rightarrow> 'w state
    \<Rightarrow> (BatchResultLocal \<times> string option) \<times> 'w state"
where
  "deferRemoveListener env res err s =
    deferEndTime env res err (s\<lparr>world := RemoveListener env (world s)\<rparr>)"

text \<open>From the end of the submit loop to the return.\<close>

definition batchWait ::
  "'w env \<Rightarrow> BatchLocalArg \<Rightarrow> event list \<Rightarrow> BatchResultLocal
    \<Rightarrow> BatchPaymentResult list \<times> (TransactionID \<times> nat) list \<times> 'w state
    \<Rightarrow> ((BatchResultLocal \<times> string option) \<times> 'w state) option"
where
  "batchWait env arg events res acc =
    (case acc of (submittedList, waitingMap, s) \<Rightarrow>
      let tn = time_Now env s;
          res1 = res\<lparr>res_AllSubmittedTime := fst tn\<rparr>
      in case waitLoop env arg events
                \<lparr>resultList = submittedList, waiting = waitingMap,
                 waitingCount = int (length waitingMap), timedOut = False, run = snd tn\<rparr> of
           None \<Rightarrow> None
         | Some ws \<Rightarrow>
           let tn1 = time_Now env (run ws);
               res2 = res1\<lparr>res_Payments := resultList ws, res_EndTime := fst tn1\<rparr>
           in Some (deferRemoveListener env (calculateStats env res2) None (snd tn1)))"

text \<open>From the listener to the return.\<close>

definition batchSubmit ::
  "'w env \<Rightarrow> BatchLocalArg \<Rightarrow> event list \<Rightarrow> BatchResultLocal \<Rightarrow> AccountID
    \<Rightarrow> MiniPrepared option list \<Rightarrow> 'w state
    \<Rightarrow> ((BatchResultLocal \<times> string option) \<times> 'w state) option"
where
  "batchSubmit env arg events res senderAccountID prepared s =
    (let listener = GetListener env (world s);
         s1 = s\<lparr>world := snd listener\<rparr>
     in case fst listener of
          Some err \<Rightarrow> Some (deferEndTime env res (Some err) s1)
        | None \<Rightarrow>
          (case submitLoop env senderAccountID prepared 0
                  (replicate (length prepared) zeroBatchPaymentResult, [], s1) of
             Inl failed \<Rightarrow> Some (deferRemoveListener env res (Some (fst failed)) (snd failed))
           | Inr acc \<Rightarrow> batchWait env arg events res acc))"

text \<open>\<^verbatim>\<open>Batch\<close>. Besides the argument, a run is fixed by the two orders of the preparation
  and by the events the wait loop receives. \<open>None\<close>: the call does not return.\<close>

definition Batch ::
  "'w env \<Rightarrow> 'w state \<Rightarrow> BatchLocalArg \<Rightarrow> nat list \<Rightarrow> nat list \<Rightarrow> event list
    \<Rightarrow> ((BatchResultLocal \<times> string option) \<times> 'w state) option"
where
  "Batch env s arg sched arrival events =
    (let tn = time_Now env s;
         res = zeroBatchResultLocal\<lparr>res_StartTime := fst tn\<rparr>;
         s1 = snd tn
     in case LookupSenderSeed env of
          Inl err \<Rightarrow> Some (deferEndTime env res (Some err) s1)
        | Inr sender \<Rightarrow>
          (case PrepareBatchPayments env (world s1) (snd sender) (arg_Payments arg) sched arrival of
             None \<Rightarrow> None
           | Some prep \<Rightarrow>
             let s2 = s1\<lparr>world := snd prep\<rparr>
             in case snd (fst prep) of
                  Some err \<Rightarrow> Some (deferEndTime env res (Some err) s2)
                | None \<Rightarrow>
                  let tn1 = time_Now env s2
                  in batchSubmit env arg events (res\<lparr>res_PreparedTime := fst tn1\<rparr>)
                       (fst sender) (fst (fst prep)) (snd tn1)))"

section \<open>Auxiliary definitions\<close>

text \<open>What the statements below speak about: the exact counts of the statistics, the
  inputs on which a preparation panics, the invariants of the two loops, and one concrete
  environment on which the model is run.\<close>

definition statusCounts :: "'w env \<Rightarrow> BatchPaymentResult list \<Rightarrow> int \<times> int \<times> int" where
  "statusCounts env ps =
    (int (length (filter (\<lambda>p. bp_Status p = PaymentStatus_COMPLETED env) ps)),
     int (length (filter (\<lambda>p. bp_Status p \<noteq> PaymentStatus_COMPLETED env \<and>
                              bp_Status p = PaymentStatus_PENDING env) ps)),
     int (length (filter (\<lambda>p. bp_Status p \<noteq> PaymentStatus_COMPLETED env \<and>
                              bp_Status p \<noteq> PaymentStatus_PENDING env) ps)))"

text \<open>The average as the specification words it: the durations of the payments that are
  COMPLETED or ERROR, summed, divided by their number.\<close>

definition spec_avgDurationMs :: "'w env \<Rightarrow> BatchPaymentResult list \<Rightarrow> TimeMs" where
  "spec_avgDurationMs env ps =
    (let terminal = filter (\<lambda>p. bp_Status p = PaymentStatus_COMPLETED env \<or>
                                  bp_Status p = PaymentStatus_ERROR env) ps
     in int64_div (sum_list (map (\<lambda>p. bp_EndTime p - bp_StartTime p) terminal))
          (of_nat (length terminal)))"

definition preparePanics :: "'w env \<Rightarrow> BatchPaymentArg \<Rightarrow> bool" where
  "preparePanics env p =
    (case LookupRecipient env (arg_Recipient p) of
       Inl err \<Rightarrow> False
     | Inr recipient \<Rightarrow>
       (case rcp_AccountID recipient of
          None \<Rightarrow> False
        | Some accountID \<Rightarrow>
          (case isAccountFunded env accountID of
             Inl err \<Rightarrow> False
           | Inr funded \<Rightarrow>
             \<not> (\<not> funded \<and> isAmountLessThanMin env (arg_Amount p) minAmountCreateAccountXLM) \<and>
             rcp_User recipient = None)))"

definition errors_last :: "MiniPrepared list \<Rightarrow> bool" where
  "errors_last ms \<longleftrightarrow>
     ms = filter (\<lambda>m. mp_Error m = None) ms @ filter (\<lambda>m. mp_Error m \<noteq> None) ms"

definition submitted_ok :: "'w env \<Rightarrow> MiniPrepared \<Rightarrow> BatchPaymentResult \<Rightarrow> bool" where
  "submitted_ok env m r \<longleftrightarrow>
     bp_Username r = mp_Username m \<and>
     bp_Status r \<in> {PaymentStatus_PENDING env, PaymentStatus_COMPLETED env, PaymentStatus_ERROR env} \<and>
     bp_StatusDescription r = PaymentStatusRevMap env (bp_Status r) \<and>
     (\<forall>e. mp_Error m = Some e \<longrightarrow> bp_Status r = PaymentStatus_ERROR env \<and> bp_Error r = Some e)"

definition submit_inv ::
  "'w env \<Rightarrow> MiniPrepared option list \<Rightarrow> nat \<Rightarrow> BatchPaymentResult list
    \<Rightarrow> (TransactionID \<times> nat) list \<Rightarrow> bool"
where
  "submit_inv env prepared i rl wt \<longleftrightarrow>
     length rl = length prepared \<and> i \<le> length prepared \<and>
     (\<forall>j<i. \<exists>m. prepared ! j = Some m \<and> submitted_ok env m (rl ! j)) \<and>
     (\<forall>(t, k)\<in>set wt. k < i \<and> bp_Status (rl ! k) = PaymentStatus_PENDING env \<and>
        (\<exists>m. prepared ! k = Some m \<and> mp_Error m = None)) \<and>
     distinct (map snd wt)"

definition wait_inv :: "'w env \<Rightarrow> 'w wait_state \<Rightarrow> bool" where
  "wait_inv env ws \<longleftrightarrow>
     (\<forall>(t, k)\<in>set (waiting ws). k < length (resultList ws) \<and>
         bp_Status (resultList ws ! k) = PaymentStatus_PENDING env) \<and>
     distinct (map snd (waiting ws))"

text \<open>The states at the head of the wait loop, one per iteration, up to the one it leaves
  the loop with.\<close>

fun waitTrace :: "'w env \<Rightarrow> BatchLocalArg \<Rightarrow> event list \<Rightarrow> 'w wait_state \<Rightarrow> 'w wait_state list"
where
  "waitTrace env arg [] ws = [ws]"
| "waitTrace env arg (ev # evs) ws =
    (if waitingCount ws > 0 \<and> \<not> timedOut ws
     then (case waitStep env arg ev ws of
             None \<Rightarrow> [ws]
           | Some ws1 \<Rightarrow> ws # waitTrace env arg evs ws1)
     else [ws])"

text \<open>What one iteration may do to the statuses: leave a status as it is, or replace
  PENDING by another status.\<close>

definition status_step :: "'w env \<Rightarrow> 'w wait_state \<Rightarrow> 'w wait_state \<Rightarrow> bool" where
  "status_step env before after \<longleftrightarrow>
     list_all2 (\<lambda>a b. bp_Status b = bp_Status a \<or>
                  (bp_Status a = PaymentStatus_PENDING env \<and> bp_Status b \<noteq> PaymentStatus_PENDING env))
       (resultList before) (resultList after)"

text \<open>The statuses that the listener's updates of a run carry.\<close>

fun eventStatuses :: "event list \<Rightarrow> PaymentStatus list" where
  "eventStatuses [] = []"
| "eventStatuses (Tick since # evs) = eventStatuses evs"
| "eventStatuses (Update txID status # evs) = status # eventStatuses evs"

definition demoEnv :: "nat env" where
  "demoEnv =
    \<lparr>PaymentStatus_PENDING = 1, PaymentStatus_COMPLETED = 3, PaymentStatus_ERROR = 4,
     PaymentStatusRevMap = (\<lambda>st. if st = 1 then ''PENDING'' else if st = 3 then ''COMPLETED''
                                  else if st = 4 then ''ERROR'' else []),
     now = (\<lambda>k. 100 * of_nat k),
     LookupSenderSeed = Inr (''GSENDER'', ''SSEED''),
     NewNormalizedUsername = (\<lambda>name. name),
     LookupRecipient = (\<lambda>name.
        if name = ''alice'' then Inr \<lparr>rcp_Input = name, rcp_User = Some ''alice-uv'', rcp_AccountID = Some ''GALICE''\<rparr>
        else if name = ''carol'' then Inr \<lparr>rcp_Input = name, rcp_User = Some ''carol-uv'', rcp_AccountID = None\<rparr>
        else if name = ''dave'' then Inr \<lparr>rcp_Input = name, rcp_User = Some ''dave-uv'', rcp_AccountID = Some ''GDAVE''\<rparr>
        else Inl ''no such user''),
     isAccountFunded = (\<lambda>a. Inr (a = ''GALICE'')),
     isAmountLessThanMin = (\<lambda>amount m. amount = ''0.5'' \<or> (amount = ''2.00'' \<and> m = ''2.01'')),
     DeviceID = ''device'',
     PaymentXLMTransaction = (\<lambda>w seed to amount.
        (Inr \<lparr>sr_Seqno = of_nat (Suc w), sr_Signed = ''tx-'' @ to, sr_TxHash = ''tx-'' @ to\<rparr>, Suc w)),
     CreateAccountXLMTransaction = (\<lambda>w seed to amount.
        (Inr \<lparr>sr_Seqno = of_nat (Suc w), sr_Signed = ''tx-'' @ to, sr_TxHash = ''tx-'' @ to\<rparr>, Suc w)),
     NoteEncryptB64 = (\<lambda>note uv. (''note'', None)),
     relays_GetKey = (\<lambda>r. Inr (''key'', ''team'')),
     relays_Create = (\<lambda>w inp.
        (Inr \<lparr>ro_FundTx = \<lparr>sr_Seqno = of_nat (Suc w), sr_Signed = ''tx-relay'', sr_TxHash = ''tx-relay''\<rparr>,
              ro_RelayAccountID = ''GRELAY'', ro_EncryptedB64 = ''box''\<rparr>, Suc w)),
     GetListener = (\<lambda>w. (None, w)),
     RemoveListener = (\<lambda>w. w),
     AddPendingTx = (\<lambda>w a t n. w),
     SubmitPayment = (\<lambda>w d. (Inr \<lparr>sub_StellarID = pd_SignedTransaction d, sub_Pending = True\<rparr>, w)),
     SubmitRelayPayment = (\<lambda>w r. (Inr \<lparr>sub_StellarID = pr_SignedTransaction r, sub_Pending = True\<rparr>, w))\<rparr>"

definition demoState :: "nat state" where
  "demoState = \<lparr>clockReads = 0, world = 9, chatsSent = []\<rparr>"

definition pay :: "string \<Rightarrow> string \<Rightarrow> BatchPaymentArg" where
  "pay name amount = \<lparr>arg_Recipient = name, arg_Amount = amount, arg_Message = []\<rparr>"

definition demoPayments :: "BatchPaymentArg list" where
  "demoPayments = [pay ''alice'' ''5'', pay ''bob'' ''5'']"

definition demoArg :: BatchLocalArg where
  "demoArg = \<lparr>arg_BatchID = ''b1'', arg_TimeoutSecs = 10, arg_Payments = demoPayments\<rparr>"

definition demoPreparedBob :: MiniPrepared where
  "demoPreparedBob =
    \<lparr>mp_Username = ''bob'', mp_Direct = None, mp_Relay = None, mp_TxID = [], mp_Seqno = 0,
     mp_Error = Some ''error looking up recipient''\<rparr>"

definition demoPreparedAlice :: MiniPrepared where
  "demoPreparedAlice =
    \<lparr>mp_Username = ''alice'',
     mp_Direct = Some \<lparr>pd_FromDeviceID = ''device'', pd_To = Some ''alice-uv'', pd_NoteB64 = [],
                       pd_SignedTransaction = ''tx-GALICE'', pd_QuickReturn = True\<rparr>,
     mp_Relay = None, mp_TxID = ''tx-GALICE'', mp_Seqno = 10, mp_Error = None\<rparr>"

definition demoEvents :: "event list" where
  "demoEvents = [Update ''tx-GALICE'' 3]"

definition demoResultBob :: BatchPaymentResult where
  "demoResultBob =
    \<lparr>bp_Username = ''bob'', bp_StartTime = 200, bp_SubmittedTime = 0, bp_EndTime = 300,
     bp_TxID = [], bp_Status = 4, bp_StatusDescription = ''ERROR'',
     bp_Error = Some ''error looking up recipient''\<rparr>"

definition demoResultAlice :: BatchPaymentResult where
  "demoResultAlice =
    \<lparr>bp_Username = ''alice'', bp_StartTime = 400, bp_SubmittedTime = 500, bp_EndTime = 700,
     bp_TxID = ''tx-GALICE'', bp_Status = 3, bp_StatusDescription = ''COMPLETED'',
     bp_Error = None\<rparr>"

definition demoResult :: BatchResultLocal where
  "demoResult =
    \<lparr>res_StartTime = 0, res_PreparedTime = 100, res_AllSubmittedTime = 600, res_EndTime = 800,
     res_Payments = [demoResultBob, demoResultAlice],
     res_OverallDurationMs = 800, res_PrepareDurationMs = 100, res_SubmitDurationMs = 500,
     res_WaitDurationMs = 200, res_CountSuccess = 1, res_CountPending = 0, res_CountError = 1,
     res_AvgDurationMs = 200, res_AvgSuccessDurationMs = 300, res_AvgErrorDurationMs = 100\<rparr>"

definition demoFinal :: "nat state" where
  "demoFinal = \<lparr>clockReads = 9, world = 10, chatsSent = [(''alice'', ''tx-GALICE'')]\<rparr>"

definition demoEventsOther :: "event list" where
  "demoEventsOther = [Update ''tx-GALICE'' 6]"

definition demoResultAliceOther :: BatchPaymentResult where
  "demoResultAliceOther =
    \<lparr>bp_Username = ''alice'', bp_StartTime = 400, bp_SubmittedTime = 500, bp_EndTime = 700,
     bp_TxID = ''tx-GALICE'', bp_Status = 6, bp_StatusDescription = [], bp_Error = None\<rparr>"

definition demoResultOther :: BatchResultLocal where
  "demoResultOther =
    \<lparr>res_StartTime = 0, res_PreparedTime = 100, res_AllSubmittedTime = 600, res_EndTime = 800,
     res_Payments = [demoResultBob, demoResultAliceOther],
     res_OverallDurationMs = 800, res_PrepareDurationMs = 100, res_SubmitDurationMs = 500,
     res_WaitDurationMs = 200, res_CountSuccess = 0, res_CountPending = 0, res_CountError = 2,
     res_AvgDurationMs = 200, res_AvgSuccessDurationMs = 0, res_AvgErrorDurationMs = 200\<rparr>"

definition demoFinalOther :: "nat state" where
  "demoFinalOther = \<lparr>clockReads = 9, world = 10, chatsSent = []\<rparr>"

definition demoResultAlicePending :: BatchPaymentResult where
  "demoResultAlicePending =
    \<lparr>bp_Username = ''alice'', bp_StartTime = 400, bp_SubmittedTime = 500, bp_EndTime = 0,
     bp_TxID = ''tx-GALICE'', bp_Status = 1, bp_StatusDescription = ''PENDING'',
     bp_Error = None\<rparr>"

text \<open>The wait loop's state when the demo run enters it.\<close>

definition demoWaitStart :: "nat wait_state" where
  "demoWaitStart =
    \<lparr>resultList = [demoResultBob, demoResultAlicePending], waiting = [(''tx-GALICE'', 1)],
     waitingCount = 1, timedOut = False,
     run = \<lparr>clockReads = 7, world = 10, chatsSent = []\<rparr>\<rparr>"

text \<open>An environment in which every recipient resolves to an account id without a user
  record, as for a payment addressed to a raw account id.\<close>

definition rawAccountEnv :: "nat env" where
  "rawAccountEnv =
    demoEnv\<lparr>LookupRecipient :=
      (\<lambda>name. Inr \<lparr>rcp_Input = name, rcp_User = None, rcp_AccountID = Some name\<rparr>)\<rparr>"

definition rawAccountArg :: BatchLocalArg where
  "rawAccountArg =
    \<lparr>arg_BatchID = ''b2'', arg_TimeoutSecs = 10, arg_Payments = [pay ''GALICE'' ''5'']\<rparr>"

definition demoEventsTimeout :: "event list" where
  "demoEventsTimeout = [Tick 5000000000, Tick 10000000001]"

definition demoResultTimeout :: BatchResultLocal where
  "demoResultTimeout =
    \<lparr>res_StartTime = 0, res_PreparedTime = 100, res_AllSubmittedTime = 600, res_EndTime = 700,
     res_Payments = [demoResultBob, demoResultAlicePending],
     res_OverallDurationMs = 700, res_PrepareDurationMs = 100, res_SubmitDurationMs = 500,
     res_WaitDurationMs = 100, res_CountSuccess = 0, res_CountPending = 1, res_CountError = 1,
     res_AvgDurationMs = - 300, res_AvgSuccessDurationMs = 0, res_AvgErrorDurationMs = 100\<rparr>"

definition demoFinalTimeout :: "nat state" where
  "demoFinalTimeout = \<lparr>clockReads = 8, world = 10, chatsSent = []\<rparr>"

text \<open>The demo environment with a sender whose seed cannot be looked up.\<close>

definition noWalletEnv :: "nat env" where
  "noWalletEnv = demoEnv\<lparr>LookupSenderSeed := Inl ''no wallet''\<rparr>"

section \<open>Lemmas\<close>

lemma statsLoop_counters:
  "res_CountSuccess (fst (statsLoop env ps (res, v))) =
     res_CountSuccess res + int (length (filter (\<lambda>p. bp_Status p = PaymentStatus_COMPLETED env) ps))
   \<and> res_CountPending (fst (statsLoop env ps (res, v))) =
     res_CountPending res + int (length (filter (\<lambda>p. bp_Status p \<noteq> PaymentStatus_COMPLETED env \<and>
                              bp_Status p = PaymentStatus_PENDING env) ps))
   \<and> res_CountError (fst (statsLoop env ps (res, v))) =
     res_CountError res + int (length (filter (\<lambda>p. bp_Status p \<noteq> PaymentStatus_COMPLETED env \<and>
                              bp_Status p \<noteq> PaymentStatus_PENDING env) ps))
   \<and> res_Payments (fst (statsLoop env ps (res, v))) = res_Payments res"
proof (induction ps arbitrary: res v)
  case Nil
  show ?case by simp
next
  case (Cons p ps)
  obtain res1 v1 where step: "statsBody env p (res, v) = (res1, v1)"
    by (cases "statsBody env p (res, v)")
  have "res_CountSuccess res1 = res_CountSuccess res +
          (if bp_Status p = PaymentStatus_COMPLETED env then 1 else 0)"
    and "res_CountPending res1 = res_CountPending res +
          (if bp_Status p \<noteq> PaymentStatus_COMPLETED env \<and> bp_Status p = PaymentStatus_PENDING env
           then 1 else 0)"
    and "res_CountError res1 = res_CountError res +
          (if bp_Status p \<noteq> PaymentStatus_COMPLETED env \<and> bp_Status p \<noteq> PaymentStatus_PENDING env
           then 1 else 0)"
    and "res_Payments res1 = res_Payments res"
    using step by (auto simp: statsBody_def Let_def split: if_splits)
  with Cons.IH [of res1 v1] step show ?case by simp
qed

lemma calculateStats_counters:
  "res_CountSuccess (calculateStats env res) =
     res_CountSuccess res + fst (statusCounts env (res_Payments res))"
  "res_CountPending (calculateStats env res) =
     res_CountPending res + fst (snd (statusCounts env (res_Payments res)))"
  "res_CountError (calculateStats env res) =
     res_CountError res + snd (snd (statusCounts env (res_Payments res)))"
  "res_Payments (calculateStats env res) = res_Payments res"
  by (simp_all add: calculateStats_def Let_def statusCounts_def statsLoop_counters)

lemma statusCounts_sum:
  "fst (statusCounts env ps) + fst (snd (statusCounts env ps)) + snd (snd (statusCounts env ps))
     = int (length ps)"
  by (induction ps) (auto simp: statusCounts_def)

lemma prepareBatchPayment_username:
  "prepareBatchPayment env w seed p = Some (m, w1) \<Longrightarrow>
     mp_Username m = NewNormalizedUsername env (arg_Recipient p)"
  by (auto simp: prepareBatchPayment_def prepareBatchPaymentDirect_def
        prepareBatchPaymentRelay_def Let_def
      split: sum.splits option.splits if_splits)

lemma prepareBatchPayment_error_seqno:
  "prepareBatchPayment env w seed p = Some (m, w1) \<Longrightarrow> mp_Error m \<noteq> None \<Longrightarrow> mp_Seqno m = 0"
  by (auto simp: prepareBatchPayment_def prepareBatchPaymentDirect_def
        prepareBatchPaymentRelay_def Let_def
      split: sum.splits option.splits if_splits)

lemma prepareAll_all2:
  "prepareAll env w seed ps = Some (ms, w1) \<Longrightarrow>
     list_all2 (\<lambda>p m. \<exists>wa wb. prepareBatchPayment env wa seed p = Some (m, wb)) ps ms"
proof (induction ps arbitrary: w ms)
  case Nil
  then show ?case by simp
next
  case (Cons p ps)
  from Cons.prems obtain m w2 ms' where
    one: "prepareBatchPayment env w seed p = Some (m, w2)"
    and rest: "prepareAll env w2 seed ps = Some (ms', w1)"
    and ms: "ms = m # ms'"
    by (auto split: option.splits)
  from one have "\<exists>wa wb. prepareBatchPayment env wa seed p = Some (m, wb)" by blast
  with Cons.IH [OF rest] ms show ?case by simp
qed

lemma prepareAll_length:
  "prepareAll env w seed ps = Some (ms, w1) \<Longrightarrow> length ms = length ps"
  using prepareAll_all2 [of env w seed ps ms w1] by (simp add: list_all2_lengthD)

lemma prepareAll_usernames:
  assumes "prepareAll env w seed ps = Some (ms, w1)"
  shows "map mp_Username ms = map (\<lambda>p. NewNormalizedUsername env (arg_Recipient p)) ps"
proof -
  have "list_all2 (\<lambda>p m. mp_Username m = NewNormalizedUsername env (arg_Recipient p)) ps ms"
    using prepareAll_all2 [OF assms]
    by (rule list_all2_mono) (auto dest: prepareBatchPayment_username)
  then show ?thesis
    by (induction rule: list_all2_induct) auto
qed

lemma prepareAll_error_seqno:
  assumes "prepareAll env w seed ps = Some (ms, w1)" and "m \<in> set ms" and "mp_Error m \<noteq> None"
  shows "mp_Seqno m = 0"
proof -
  have "list_all2 (\<lambda>p m. mp_Error m \<noteq> None \<longrightarrow> mp_Seqno m = 0) ps ms"
    using prepareAll_all2 [OF assms(1)]
    by (rule list_all2_mono) (auto dest: prepareBatchPayment_error_seqno)
  then have "\<forall>m\<in>set ms. mp_Error m \<noteq> None \<longrightarrow> mp_Seqno m = 0"
    by (induction rule: list_all2_induct) auto
  with assms show ?thesis by blast
qed

lemma interleaving_length: "is_interleaving n xs \<Longrightarrow> length xs = n"
  unfolding is_interleaving_def using mset_eq_length by fastforce

lemma interleaving_mset_nth:
  assumes "is_interleaving (length ys) xs"
  shows "mset (map ((!) ys) xs) = mset ys"
proof -
  have "mset (map ((!) ys) xs) = image_mset ((!) ys) (mset xs)" by simp
  also have "\<dots> = image_mset ((!) ys) (mset [0..<length ys])"
    using assms by (simp add: is_interleaving_def)
  also have "\<dots> = mset (map ((!) ys) [0..<length ys])" by simp
  also have "\<dots> = mset ys" by (simp add: map_nth)
  finally show ?thesis .
qed

lemma PrepareBatchPayments_Some:
  assumes "PrepareBatchPayments env w seed payments sched arrival = Some ((prepared, perr), w1)"
  shows "perr = None"
    and "\<exists>finished. prepareAll env w seed (map ((!) payments) sched) = Some (finished, w1) \<and>
           prepared = map Some (sort_key mp_Seqno (map ((!) finished) arrival))"
  using assms by (auto simp: PrepareBatchPayments_def Let_def split: option.splits)

lemma PrepareBatchPayments_facts:
  assumes prep: "PrepareBatchPayments env w seed payments sched arrival = Some ((prepared, perr), w1)"
    and sched: "is_interleaving (length payments) sched"
    and arrival: "is_interleaving (length payments) arrival"
  shows "length prepared = length payments"
    and "None \<notin> set prepared"
    and "sorted (map (\<lambda>m. mp_Seqno (the m)) prepared)"
    and "mset (map (\<lambda>m. mp_Username (the m)) prepared) =
           mset (map (\<lambda>p. NewNormalizedUsername env (arg_Recipient p)) payments)"
    and "\<forall>m\<in>set prepared. mp_Error (the m) \<noteq> None \<longrightarrow> mp_Seqno (the m) = 0"
proof -
  obtain finished where fin: "prepareAll env w seed (map ((!) payments) sched) = Some (finished, w1)"
    and prepared: "prepared = map Some (sort_key mp_Seqno (map ((!) finished) arrival))"
    using PrepareBatchPayments_Some(2) [OF prep] by blast
  have len: "length finished = length payments"
    using prepareAll_length [OF fin] interleaving_length [OF sched] by simp
  have recv: "mset (map ((!) finished) arrival) = mset finished"
    using interleaving_mset_nth [of finished arrival] arrival len by simp
  show "length prepared = length payments"
    using prepared interleaving_length [OF arrival] by simp
  show "None \<notin> set prepared"
    using prepared by auto
  show "sorted (map (\<lambda>m. mp_Seqno (the m)) prepared)"
    by (simp add: prepared comp_def)
  have "mset (map mp_Username (sort_key mp_Seqno (map ((!) finished) arrival))) =
          mset (map mp_Username finished)"
    using recv by (metis mset_map mset_sort)
  also have "\<dots> = mset (map (\<lambda>p. NewNormalizedUsername env (arg_Recipient p)) (map ((!) payments) sched))"
    using prepareAll_usernames [OF fin] by simp
  also have "\<dots> = mset (map (\<lambda>p. NewNormalizedUsername env (arg_Recipient p)) payments)"
    using interleaving_mset_nth [OF sched] by (metis mset_map)
  finally show "mset (map (\<lambda>m. mp_Username (the m)) prepared) =
           mset (map (\<lambda>p. NewNormalizedUsername env (arg_Recipient p)) payments)"
    by (simp add: prepared comp_def)
  have "set (sort_key mp_Seqno (map ((!) finished) arrival)) = set finished"
    using recv by (metis mset_sort set_mset_mset)
  then show "\<forall>m\<in>set prepared. mp_Error (the m) \<noteq> None \<longrightarrow> mp_Seqno (the m) = 0"
    using prepareAll_error_seqno [OF fin] by (auto simp: prepared)
qed

lemma prepareBatchPayment_None_iff:
  "prepareBatchPayment env w seed p = None \<longleftrightarrow> preparePanics env p"
  by (auto simp: prepareBatchPayment_def prepareBatchPaymentDirect_def preparePanics_def Let_def
      split: sum.splits option.splits)

lemma prepareAll_None_iff:
  "prepareAll env w seed ps = None \<longleftrightarrow> (\<exists>p\<in>set ps. preparePanics env p)"
proof (induction ps arbitrary: w)
  case Nil
  show ?case by simp
next
  case (Cons p ps)
  show ?case
  proof (cases "prepareBatchPayment env w seed p")
    case None
    then show ?thesis using prepareBatchPayment_None_iff [of env w seed p] by simp
  next
    case (Some a)
    then have "\<not> preparePanics env p"
      using prepareBatchPayment_None_iff [of env w seed p] by simp
    then show ?thesis using Some Cons.IH [of "snd a"]
      by (cases a) (auto split: option.splits)
  qed
qed

lemma interleaving_set_nth:
  assumes "is_interleaving (length ys) xs"
  shows "set (map ((!) ys) xs) = set ys"
  using interleaving_mset_nth [OF assms] by (metis set_mset_mset)

lemma PrepareBatchPayments_None_iff:
  assumes "is_interleaving (length payments) sched"
  shows "PrepareBatchPayments env w seed payments sched arrival = None \<longleftrightarrow>
           (\<exists>p\<in>set payments. preparePanics env p)"
proof -
  have "PrepareBatchPayments env w seed payments sched arrival = None \<longleftrightarrow>
          prepareAll env w seed (map ((!) payments) sched) = None"
    by (auto simp: PrepareBatchPayments_def Let_def split: option.splits)
  also have "\<dots> \<longleftrightarrow> (\<exists>p\<in>set (map ((!) payments) sched). preparePanics env p)"
    by (rule prepareAll_None_iff)
  also have "\<dots> \<longleftrightarrow> (\<exists>p\<in>set payments. preparePanics env p)"
    by (simp only: interleaving_set_nth [OF assms])
  finally show ?thesis .
qed

lemma demo_interleaving: "is_interleaving (length demoPayments) [0, 1]"
  by (simp add: is_interleaving_def demoPayments_def upt_conv_Cons)

lemma demo_prepare:
  "PrepareBatchPayments demoEnv 9 ''SSEED'' demoPayments [0, 1] [0, 1] =
     Some (([Some demoPreparedBob, Some demoPreparedAlice], None), 10)"
  by (simp add: PrepareBatchPayments_def prepareBatchPayment_def prepareBatchPaymentDirect_def
        demoEnv_def demoPayments_def pay_def demoPreparedBob_def demoPreparedAlice_def Let_def
        minAmountCreateAccountXLM_def)

lemma set_update_subset: "set (AList.update k v al) \<subseteq> insert (k, v) (set al)"
  by (induction al) auto

lemma distinct_snd_update:
  "distinct (map snd al) \<Longrightarrow> v \<notin> snd ` set al \<Longrightarrow> distinct (map snd (AList.update k v al))"
proof (induction al)
  case Nil
  then show ?case by simp
next
  case (Cons p al)
  show ?case
  proof (cases "fst p = k")
    case True
    with Cons.prems show ?thesis by auto
  next
    case False
    have "snd p \<notin> snd ` set (AList.update k v al)"
    proof
      assume "snd p \<in> snd ` set (AList.update k v al)"
      then obtain q where q: "q \<in> set (AList.update k v al)" and eq: "snd q = snd p" by auto
      from q set_update_subset [of k v al] have "q = (k, v) \<or> q \<in> set al" by auto
      with eq Cons.prems show False by (auto simp: image_iff) 
    qed
    with False Cons show ?thesis by auto
  qed
qed

lemma submitOne_shape:
  assumes "submitOne env acct m i (rl, wt, s) = (rl', wt', s')"
  shows "\<exists>r. rl' = rl[i := r] \<and> submitted_ok env m r \<and>
           (wt' = wt \<or> (wt' = AList.update (bp_TxID r) i wt \<and> mp_Error m = None \<and>
                        bp_Status r = PaymentStatus_PENDING env))"
proof (cases "mp_Error m")
  case (Some e)
  with assms show ?thesis
    by (auto simp: submitOne_def makeResultError_def submitted_ok_def
          zeroBatchPaymentResult_def Let_def)
next
  case None
  define b where "b = zeroBatchPaymentResult\<lparr>bp_Username := mp_Username m,
                         bp_StartTime := fst (time_Now env s)\<rparr>"
  define d where "d = submitBatchTx env (snd (time_Now env s)) acct m b"
  have user: "bp_Username (fst d) = mp_Username m"
    and st: "bp_Status (fst d) \<in> {PaymentStatus_PENDING env, PaymentStatus_COMPLETED env,
                                   PaymentStatus_ERROR env}"
    unfolding d_def b_def
    by (auto simp: submitBatchTx_def makeResultError_def Let_def zeroBatchPaymentResult_def
          split: sum.splits option.splits)
  let ?r = "(fst d)\<lparr>bp_StatusDescription := PaymentStatusRevMap env (bp_Status (fst d))\<rparr>"
  have rl': "rl' = rl[i := ?r]"
    and wt': "wt' = (if bp_Status (fst d) = PaymentStatus_PENDING env
                     then AList.update (bp_TxID (fst d)) i wt else wt)"
    using assms None by (auto simp: submitOne_def Let_def d_def b_def)
  have "submitted_ok env m ?r"
    using user st None by (auto simp: submitted_ok_def)
  moreover have "wt' = wt \<or> (wt' = AList.update (bp_TxID ?r) i wt \<and> mp_Error m = None \<and>
                        bp_Status ?r = PaymentStatus_PENDING env)"
    using wt' None by auto
  ultimately show ?thesis using rl' by blast
qed

lemma submit_inv_step:
  assumes inv: "submit_inv env prepared i rl wt"
    and i: "i < length prepared" and m: "prepared ! i = Some m"
    and one: "submitOne env acct m i (rl, wt, s) = (rl', wt', s')"
  shows "submit_inv env prepared (Suc i) rl' wt'"
proof -
  from submitOne_shape [OF one] obtain r where
    rl': "rl' = rl[i := r]" and ok: "submitted_ok env m r"
    and wt': "wt' = wt \<or> (wt' = AList.update (bp_TxID r) i wt \<and> mp_Error m = None \<and>
                        bp_Status r = PaymentStatus_PENDING env)"
    by blast
  from inv have len: "length rl = length prepared"
    and before: "\<forall>j<i. \<exists>m. prepared ! j = Some m \<and> submitted_ok env m (rl ! j)"
    and wts: "\<forall>(t, k)\<in>set wt. k < i \<and> bp_Status (rl ! k) = PaymentStatus_PENDING env \<and>
        (\<exists>m. prepared ! k = Some m \<and> mp_Error m = None)"
    and dist: "distinct (map snd wt)"
    by (auto simp: submit_inv_def)
  have a: "length rl' = length prepared" using rl' len by simp
  have b: "\<forall>j<Suc i. \<exists>m. prepared ! j = Some m \<and> submitted_ok env m (rl' ! j)"
  proof (intro allI impI)
    fix j assume "j < Suc i"
    then consider "j < i" | "j = i" by linarith
    then show "\<exists>m. prepared ! j = Some m \<and> submitted_ok env m (rl' ! j)"
    proof cases
      case 1
      with before rl' show ?thesis by auto
    next
      case 2
      with m ok rl' i len show ?thesis by auto
    qed
  qed
  have fresh: "i \<notin> snd ` set wt" using wts by fastforce
  have c: "\<forall>(t, k)\<in>set wt'. k < Suc i \<and> bp_Status (rl' ! k) = PaymentStatus_PENDING env \<and>
        (\<exists>m. prepared ! k = Some m \<and> mp_Error m = None)"
  proof (clarify)
    fix t k assume tk: "(t, k) \<in> set wt'"
    have "(t, k) \<in> set wt \<or> (k = i \<and> mp_Error m = None \<and> bp_Status r = PaymentStatus_PENDING env)"
      using wt' tk set_update_subset [of "bp_TxID r" i wt] by auto
    then show "k < Suc i \<and> bp_Status (rl' ! k) = PaymentStatus_PENDING env \<and>
        (\<exists>m. prepared ! k = Some m \<and> mp_Error m = None)"
    proof
      assume old: "(t, k) \<in> set wt"
      with wts have "k < i" and "bp_Status (rl ! k) = PaymentStatus_PENDING env"
        and "\<exists>m. prepared ! k = Some m \<and> mp_Error m = None" by auto
      then show ?thesis using rl' by auto
    next
      assume "k = i \<and> mp_Error m = None \<and> bp_Status r = PaymentStatus_PENDING env"
      then show ?thesis using rl' m i len by auto
    qed
  qed
  have d: "distinct (map snd wt')"
    using wt' dist fresh distinct_snd_update [of wt i "bp_TxID r"] by auto
  from a b c d i show ?thesis by (simp add: submit_inv_def)
qed

lemma submitLoop_inv:
  assumes "submit_inv env prepared i rl wt" and "rest = drop i prepared"
    and "submitLoop env acct rest i (rl, wt, s) = Inr (rl', wt', s')"
  shows "submit_inv env prepared (length prepared) rl' wt'"
  using assms
proof (induction rest arbitrary: i rl wt s)
  case Nil
  then have "i = length prepared" by (simp add: submit_inv_def)
  with Nil show ?case by simp
next
  case (Cons x rest)
  from Cons.prems(2) have i: "i < length prepared"
    by (metis drop_all leI list.distinct(1))
  with Cons.prems(2) have x: "prepared ! i = x" and rest: "rest = drop (Suc i) prepared"
    by (metis Cons_nth_drop_Suc list.inject)+
  from Cons.prems(3) obtain m where m: "x = Some m" by (cases x) auto
  obtain rl1 wt1 s1 where one: "submitOne env acct m i (rl, wt, s) = (rl1, wt1, s1)"
    by (cases "submitOne env acct m i (rl, wt, s)") auto
  have inv1: "submit_inv env prepared (Suc i) rl1 wt1"
    using submit_inv_step [OF Cons.prems(1) i _ one] x m by simp
  from Cons.prems(3) m one have "submitLoop env acct rest (Suc i) (rl1, wt1, s1) = Inr (rl', wt', s')"
    by simp
  from Cons.IH [OF inv1 rest this] show ?case .
qed

lemma submit_inv_start:
  "submit_inv env prepared 0 (replicate (length prepared) zeroBatchPaymentResult) []"
  by (simp add: submit_inv_def)

lemma submitLoop_no_nil:
  "None \<notin> set rest \<Longrightarrow> \<exists>acc'. submitLoop env acct rest i acc = Inr acc'"
proof (induction rest arbitrary: i acc)
  case Nil
  show ?case by (cases acc) auto
next
  case (Cons x rest)
  then obtain m where "x = Some m" by (cases x) auto
  with Cons show ?case by simp
qed

lemma waitStep_shape:
  assumes "waitStep env arg ev ws = Some ws'"
  shows "(resultList ws' = resultList ws \<and> waiting ws' = waiting ws) \<or>
         (\<exists>t st k r. ev = Update t st \<and> map_of (waiting ws) t = Some k \<and>
            k < length (resultList ws) \<and>
            resultList ws' = (resultList ws)[k := r] \<and>
            bp_Status r = st \<and> bp_StatusDescription r = PaymentStatusRevMap env st \<and>
            bp_Username r = bp_Username (resultList ws ! k) \<and>
            bp_Error r = bp_Error (resultList ws ! k) \<and>
            (if st = PaymentStatus_PENDING env then waiting ws' = waiting ws
             else waiting ws' = AList.delete t (waiting ws)))"
proof (cases ev)
  case (Tick since)
  with assms show ?thesis by (auto simp: waitStep_def split: if_splits)
next
  case (Update t st)
  show ?thesis
  proof (cases "map_of (waiting ws) t")
    case None
    with assms Update show ?thesis by (simp add: waitStep_def)
  next
    case (Some k)
    with assms Update have k: "k < length (resultList ws)"
      by (auto simp: waitStep_def split: if_splits)
    show ?thesis
    proof (cases "st = PaymentStatus_PENDING env")
      case True
      with assms Update Some k show ?thesis
        by (auto simp: waitStep_def Let_def split: if_splits)
    next
      case False
      with assms Update Some k show ?thesis
        by (auto simp: waitStep_def Let_def time_Now_def split: if_splits)
    qed
  qed
qed

lemma map_update_same:
  "k < length xs \<Longrightarrow> f r = f (xs ! k) \<Longrightarrow> map f (xs[k := r]) = map f xs"
  by (simp add: map_update list_update_same_conv)

lemma distinct_snd_unique:
  "distinct (map snd al) \<Longrightarrow> (a, k) \<in> set al \<Longrightarrow> (b, k) \<in> set al \<Longrightarrow> a = b"
  by (induction al) (auto simp: image_iff)

lemma waitStep_props:
  assumes step: "waitStep env arg ev ws = Some ws'"
  shows "length (resultList ws') = length (resultList ws)"
    and "map bp_Username (resultList ws') = map bp_Username (resultList ws)"
    and "map bp_Error (resultList ws') = map bp_Error (resultList ws)"
    and "set (waiting ws') \<subseteq> set (waiting ws)"
    and "k \<notin> snd ` set (waiting ws) \<Longrightarrow> resultList ws' ! k = resultList ws ! k"
    and "(\<forall>r\<in>set (resultList ws). bp_StatusDescription r = PaymentStatusRevMap env (bp_Status r))
          \<Longrightarrow> (\<forall>r\<in>set (resultList ws'). bp_StatusDescription r = PaymentStatusRevMap env (bp_Status r))"
    and "bp_Status ` set (resultList ws') \<subseteq>
           bp_Status ` set (resultList ws) \<union> set (eventStatuses [ev])"
    and "wait_inv env ws \<Longrightarrow> wait_inv env ws'"
    and "wait_inv env ws \<Longrightarrow> status_step env ws ws'"
proof -
  consider (same) "resultList ws' = resultList ws" "waiting ws' = waiting ws"
    | (upd) t st j r where "ev = Update t st" "map_of (waiting ws) t = Some j"
        "j < length (resultList ws)" "resultList ws' = (resultList ws)[j := r]"
        "bp_Status r = st" "bp_StatusDescription r = PaymentStatusRevMap env st"
        "bp_Username r = bp_Username (resultList ws ! j)"
        "bp_Error r = bp_Error (resultList ws ! j)"
        "if st = PaymentStatus_PENDING env then waiting ws' = waiting ws
         else waiting ws' = AList.delete t (waiting ws)"
    using waitStep_shape [OF step] by blast
  note cases = this
  show "length (resultList ws') = length (resultList ws)"
    using cases by cases auto
  show "map bp_Username (resultList ws') = map bp_Username (resultList ws)"
    using cases by cases (auto simp: map_update_same)
  show "map bp_Error (resultList ws') = map bp_Error (resultList ws)"
    using cases by cases (auto simp: map_update_same)
  show sub: "set (waiting ws') \<subseteq> set (waiting ws)"
    using cases by cases (auto simp: AList.delete_eq split: if_splits)
  show "resultList ws' ! k = resultList ws ! k" if "k \<notin> snd ` set (waiting ws)"
    using cases
  proof cases
    case same
    then show ?thesis by simp
  next
    case upd
    from upd(2) have "(t, j) \<in> set (waiting ws)" by (rule map_of_SomeD)
    with that have "j \<noteq> k" by force
    with upd(4) show ?thesis by simp
  qed
  show "\<forall>r\<in>set (resultList ws'). bp_StatusDescription r = PaymentStatusRevMap env (bp_Status r)"
    if "\<forall>r\<in>set (resultList ws). bp_StatusDescription r = PaymentStatusRevMap env (bp_Status r)"
    using cases
  proof cases
    case same
    with that show ?thesis by simp
  next
    case upd
    have "set ((resultList ws)[j := r]) \<subseteq> insert r (set (resultList ws))"
      by (rule set_update_subset_insert)
    with that upd show ?thesis by auto
  qed
  show "bp_Status ` set (resultList ws') \<subseteq>
           bp_Status ` set (resultList ws) \<union> set (eventStatuses [ev])"
    using cases
  proof cases
    case same
    then show ?thesis by simp
  next
    case upd
    have "set ((resultList ws)[j := r]) \<subseteq> insert r (set (resultList ws))"
      by (rule set_update_subset_insert)
    moreover have "bp_Status r \<in> set (eventStatuses [ev])"
      using upd by simp
    ultimately show ?thesis using upd(4) by auto
  qed
  show "wait_inv env ws'" if inv: "wait_inv env ws"
    using cases
  proof cases
    case same
    with inv show ?thesis by (simp add: wait_inv_def)
  next
    case upd
    from upd(2) have tj: "(t, j) \<in> set (waiting ws)" by (rule map_of_SomeD)
    from inv have dist: "distinct (map snd (waiting ws))"
      and pend: "\<forall>(t, k)\<in>set (waiting ws). k < length (resultList ws) \<and>
         bp_Status (resultList ws ! k) = PaymentStatus_PENDING env"
      by (auto simp: wait_inv_def)
    show ?thesis
    proof (cases "st = PaymentStatus_PENDING env")
      case True
      with upd have w: "waiting ws' = waiting ws" by simp
      have "\<forall>(t, k)\<in>set (waiting ws'). k < length (resultList ws') \<and>
         bp_Status (resultList ws' ! k) = PaymentStatus_PENDING env"
        using pend w upd(3,4,5) True by (auto simp: nth_list_update)
      with dist w show ?thesis by (simp add: wait_inv_def)
    next
      case False
      with upd have w: "waiting ws' = AList.delete t (waiting ws)" by simp
      have "k < length (resultList ws') \<and>
              bp_Status (resultList ws' ! k) = PaymentStatus_PENDING env"
        if mem: "(t', k) \<in> set (waiting ws')" for t' k
      proof -
        from mem w have old: "(t', k) \<in> set (waiting ws)" and ne: "t' \<noteq> t"
          by (auto simp: AList.delete_eq)
        have "k \<noteq> j" using distinct_snd_unique [OF dist old] tj ne by auto
        with pend old upd(4) show ?thesis by auto
      qed
      moreover have "distinct (map snd (waiting ws'))"
        using dist w by (simp add: AList.delete_eq distinct_map_filter)
      ultimately show ?thesis by (auto simp: wait_inv_def)
    qed
  qed
  show "status_step env ws ws'" if inv: "wait_inv env ws"
    using cases
  proof cases
    case same
    then show ?thesis by (simp add: status_step_def list_all2_conv_all_nth)
  next
    case upd
    from upd(2) have tj: "(t, j) \<in> set (waiting ws)" by (rule map_of_SomeD)
    with inv have "bp_Status (resultList ws ! j) = PaymentStatus_PENDING env"
      by (auto simp: wait_inv_def)
    with upd(3,4,5) show ?thesis
      by (auto simp: status_step_def list_all2_conv_all_nth nth_list_update)
  qed
qed

lemma eventStatuses_Cons: "eventStatuses (ev # evs) = eventStatuses [ev] @ eventStatuses evs"
  by (cases ev) simp_all

lemma waitLoop_props:
  assumes "waitLoop env arg evs ws = Some ws'"
  shows "length (resultList ws') = length (resultList ws)"
    and "map bp_Username (resultList ws') = map bp_Username (resultList ws)"
    and "map bp_Error (resultList ws') = map bp_Error (resultList ws)"
    and "set (waiting ws') \<subseteq> set (waiting ws)"
    and "k \<notin> snd ` set (waiting ws) \<Longrightarrow> resultList ws' ! k = resultList ws ! k"
    and "(\<forall>r\<in>set (resultList ws). bp_StatusDescription r = PaymentStatusRevMap env (bp_Status r))
          \<Longrightarrow> (\<forall>r\<in>set (resultList ws'). bp_StatusDescription r = PaymentStatusRevMap env (bp_Status r))"
    and "bp_Status ` set (resultList ws') \<subseteq>
           bp_Status ` set (resultList ws) \<union> set (eventStatuses evs)"
  using assms
proof (induction evs arbitrary: ws)
  case Nil
  { case 1 then show ?case by (auto split: if_splits) }
  { case 2 then show ?case by (auto split: if_splits) }
  { case 3 then show ?case by (auto split: if_splits) }
  { case 4 then show ?case by (auto split: if_splits) }
  { case 5 then show ?case by (auto split: if_splits) }
  { case 6 then show ?case by (auto split: if_splits) }
  { case 7 then show ?case by (auto split: if_splits) }
next
  case (Cons ev evs)
  { case 1 then show ?case
      using Cons.IH(1) waitStep_props(1) [of env arg ev ws]
      by (auto split: if_splits option.splits) }
  { case 2 then show ?case
      using Cons.IH(2) waitStep_props(2) [of env arg ev ws]
      by (auto split: if_splits option.splits) }
  { case 3 then show ?case
      using Cons.IH(3) waitStep_props(3) [of env arg ev ws]
      by (auto split: if_splits option.splits) }
  { case 4 then show ?case
      using Cons.IH(4) waitStep_props(4) [of env arg ev ws]
      by (fastforce split: if_splits option.splits) }
  { case 5
    show ?case
    proof (cases "waitingCount ws > 0 \<and> \<not> timedOut ws")
      case False
      with 5 show ?thesis by simp
    next
      case True
      with 5(2) obtain ws1 where s1: "waitStep env arg ev ws = Some ws1"
        and l1: "waitLoop env arg evs ws1 = Some ws'"
        by (auto split: option.splits)
      have "k \<notin> snd ` set (waiting ws1)"
        using waitStep_props(4) [OF s1] 5(1) by auto
      from Cons.IH(5) [OF this l1] waitStep_props(5) [OF s1 5(1)] show ?thesis by simp
    qed }
  { case 6
    show ?case
    proof (cases "waitingCount ws > 0 \<and> \<not> timedOut ws")
      case False
      with 6 show ?thesis by simp
    next
      case True
      with 6(2) obtain ws1 where s1: "waitStep env arg ev ws = Some ws1"
        and l1: "waitLoop env arg evs ws1 = Some ws'"
        by (auto split: option.splits)
      from Cons.IH(6) [OF waitStep_props(6) [OF s1 6(1)] l1] show ?thesis .
    qed }
  { case 7
    show ?case
    proof (cases "waitingCount ws > 0 \<and> \<not> timedOut ws")
      case False
      with 7 show ?thesis by auto
    next
      case True
      with 7 obtain ws1 where s1: "waitStep env arg ev ws = Some ws1"
        and l1: "waitLoop env arg evs ws1 = Some ws'"
        by (auto split: option.splits)
      from Cons.IH(7) [OF l1] waitStep_props(7) [OF s1] show ?thesis
        unfolding eventStatuses_Cons [of ev evs] set_append by blast
    qed }
qed

lemma waitTrace_hd: "hd (waitTrace env arg evs ws) = ws" "waitTrace env arg evs ws \<noteq> []"
  by (cases evs; simp split: option.splits)+

lemma waitTrace_steps:
  "wait_inv env ws \<Longrightarrow> successively (status_step env) (waitTrace env arg evs ws)"
proof (induction evs arbitrary: ws)
  case Nil
  show ?case by simp
next
  case (Cons ev evs)
  show ?case
  proof (cases "waitingCount ws > 0 \<and> \<not> timedOut ws")
    case False
    then show ?thesis by auto
  next
    case True
    show ?thesis
    proof (cases "waitStep env arg ev ws")
      case None
      with True show ?thesis by simp
    next
      case (Some ws1)
      have "successively (status_step env) (waitTrace env arg evs ws1)"
        using Cons.IH [OF waitStep_props(8) [OF Some Cons.prems]] .
      moreover have "status_step env ws (hd (waitTrace env arg evs ws1))"
        using waitStep_props(9) [OF Some Cons.prems] by (simp add: waitTrace_hd)
      ultimately show ?thesis using True Some by (simp add: successively_Cons)
    qed
  qed
qed

lemma waitLoop_last_trace:
  "waitLoop env arg evs ws = Some ws' \<Longrightarrow> last (waitTrace env arg evs ws) = ws'"
proof (induction evs arbitrary: ws)
  case Nil
  then show ?case by (auto split: if_splits)
next
  case (Cons ev evs)
  then show ?case
    by (auto simp: waitTrace_hd split: if_splits option.splits)
qed

lemma deferEndTime_fields:
  assumes "deferEndTime env res err s = ((res', err'), s')"
  shows "err' = err" and "res_Payments res' = res_Payments res"
    and "res_CountSuccess res' = res_CountSuccess res"
    and "res_CountPending res' = res_CountPending res"
    and "res_CountError res' = res_CountError res"
    and "world s' = world s" and "chatsSent s' = chatsSent s"
  using assms by (auto simp: deferEndTime_def time_Now_def Let_def split: if_splits)

lemma deferRemoveListener_fields:
  assumes "deferRemoveListener env res err s = ((res', err'), s')"
  shows "err' = err" and "res_Payments res' = res_Payments res"
    and "res_CountSuccess res' = res_CountSuccess res"
    and "res_CountPending res' = res_CountPending res"
    and "res_CountError res' = res_CountError res"
  using assms deferEndTime_fields [of env res err "s\<lparr>world := RemoveListener env (world s)\<rparr>" res' err' s']
  by (simp_all add: deferRemoveListener_def)

lemma batchWait_Some:
  assumes "batchWait env arg events res0 (rl, wt, s) = Some ((res, err), s')"
  shows "err = None"
    and "\<exists>ws0 ws. resultList ws0 = rl \<and> waiting ws0 = wt \<and>
           waitLoop env arg events ws0 = Some ws \<and> res_Payments res = resultList ws \<and>
           res_CountSuccess res = res_CountSuccess res0 + fst (statusCounts env (resultList ws)) \<and>
           res_CountPending res = res_CountPending res0 + fst (snd (statusCounts env (resultList ws))) \<and>
           res_CountError res = res_CountError res0 + snd (snd (statusCounts env (resultList ws)))"
proof -
  define ws0 where "ws0 = \<lparr>resultList = rl, waiting = wt, waitingCount = int (length wt),
                            timedOut = False, run = snd (time_Now env s)\<rparr>"
  from assms obtain ws where loop: "waitLoop env arg events ws0 = Some ws"
    by (auto simp: batchWait_def Let_def ws0_def split: option.splits)
  define res2 where "res2 = res0\<lparr>res_AllSubmittedTime := fst (time_Now env s),
                        res_Payments := resultList ws, res_EndTime := fst (time_Now env (run ws))\<rparr>"
  from assms loop have d: "deferRemoveListener env (calculateStats env res2) None
                              (snd (time_Now env (run ws))) = ((res, err), s')"
    by (simp add: batchWait_def Let_def ws0_def res2_def)
  show "err = None" using deferRemoveListener_fields(1) [OF d] by simp
  have "res_Payments res = resultList ws"
    using deferRemoveListener_fields(2) [OF d] by (simp add: calculateStats_counters res2_def)
  moreover have "res_CountSuccess res = res_CountSuccess res0 + fst (statusCounts env (resultList ws))"
    using deferRemoveListener_fields(3) [OF d] by (simp add: calculateStats_counters res2_def)
  moreover have "res_CountPending res = res_CountPending res0 + fst (snd (statusCounts env (resultList ws)))"
    using deferRemoveListener_fields(4) [OF d] by (simp add: calculateStats_counters res2_def)
  moreover have "res_CountError res = res_CountError res0 + snd (snd (statusCounts env (resultList ws)))"
    using deferRemoveListener_fields(5) [OF d] by (simp add: calculateStats_counters res2_def)
  ultimately show "\<exists>ws0 ws. resultList ws0 = rl \<and> waiting ws0 = wt \<and>
           waitLoop env arg events ws0 = Some ws \<and> res_Payments res = resultList ws \<and>
           res_CountSuccess res = res_CountSuccess res0 + fst (statusCounts env (resultList ws)) \<and>
           res_CountPending res = res_CountPending res0 + fst (snd (statusCounts env (resultList ws))) \<and>
           res_CountError res = res_CountError res0 + snd (snd (statusCounts env (resultList ws)))"
    using loop by (intro exI [of _ ws0] exI [of _ ws]) (simp add: ws0_def)
qed

lemma batchSubmit_Some:
  assumes "batchSubmit env arg events res0 acct prepared s = Some ((res, None), s')"
  shows "\<exists>rl wt s1 s2 ws0 ws.
           submitLoop env acct prepared 0
             (replicate (length prepared) zeroBatchPaymentResult, [], s1) = Inr (rl, wt, s2) \<and>
           resultList ws0 = rl \<and> waiting ws0 = wt \<and>
           waitLoop env arg events ws0 = Some ws \<and> res_Payments res = resultList ws \<and>
           res_CountSuccess res = res_CountSuccess res0 + fst (statusCounts env (resultList ws)) \<and>
           res_CountPending res = res_CountPending res0 + fst (snd (statusCounts env (resultList ws))) \<and>
           res_CountError res = res_CountError res0 + snd (snd (statusCounts env (resultList ws)))"
proof -
  define s1 where "s1 = s\<lparr>world := snd (GetListener env (world s))\<rparr>"
  have noerr: "fst (GetListener env (world s)) = None"
  proof (cases "fst (GetListener env (world s))")
    case None
    then show ?thesis .
  next
    case (Some e)
    with assms deferEndTime_fields(1) [of env res0 "Some e" s1 res None s']
    show ?thesis by (simp add: batchSubmit_def Let_def s1_def)
  qed
  obtain rl wt s2 where sub: "submitLoop env acct prepared 0
             (replicate (length prepared) zeroBatchPaymentResult, [], s1) = Inr (rl, wt, s2)"
  proof (cases "submitLoop env acct prepared 0
             (replicate (length prepared) zeroBatchPaymentResult, [], s1)")
    case (Inl failed)
    with assms noerr
      deferRemoveListener_fields(1) [of env res0 "Some (fst failed)" "snd failed" res None s']
    show ?thesis by (simp add: batchSubmit_def Let_def s1_def)
  next
    case (Inr acc)
    with that show ?thesis by (cases acc) auto
  qed
  with assms noerr have "batchWait env arg events res0 (rl, wt, s2) = Some ((res, None), s')"
    by (simp add: batchSubmit_def Let_def s1_def)
  from batchWait_Some(2) [OF this] sub show ?thesis by blast
qed

lemma Batch_Some:
  assumes "Batch env s arg sched arrival events = Some ((res, None), s')"
  shows "\<exists>sender prepared w1 rl wt s1 s2 ws0 ws.
           LookupSenderSeed env = Inr sender \<and>
           PrepareBatchPayments env (world s) (snd sender) (arg_Payments arg) sched arrival =
             Some ((prepared, None), w1) \<and>
           submitLoop env (fst sender) prepared 0
             (replicate (length prepared) zeroBatchPaymentResult, [], s1) = Inr (rl, wt, s2) \<and>
           resultList ws0 = rl \<and> waiting ws0 = wt \<and>
           waitLoop env arg events ws0 = Some ws \<and> res_Payments res = resultList ws \<and>
           res_CountSuccess res = fst (statusCounts env (resultList ws)) \<and>
           res_CountPending res = fst (snd (statusCounts env (resultList ws))) \<and>
           res_CountError res = snd (snd (statusCounts env (resultList ws)))"
proof -
  define s1 where "s1 = snd (time_Now env s)"
  define res0 where "res0 = zeroBatchResultLocal\<lparr>res_StartTime := fst (time_Now env s)\<rparr>"
  have w: "world s1 = world s" by (simp add: s1_def time_Now_def)
  obtain sender where sender: "LookupSenderSeed env = Inr sender"
  proof (cases "LookupSenderSeed env")
    case (Inl e)
    with assms deferEndTime_fields(1) [of env res0 "Some e" s1 res None s']
    show ?thesis by (simp add: Batch_def Let_def s1_def res0_def)
  next
    case (Inr sender)
    with that show ?thesis .
  qed
  obtain prepared perr w1 where prep:
    "PrepareBatchPayments env (world s) (snd sender) (arg_Payments arg) sched arrival =
       Some ((prepared, perr), w1)"
    using assms sender w
    by (cases "PrepareBatchPayments env (world s) (snd sender) (arg_Payments arg) sched arrival")
       (auto simp: Batch_def Let_def s1_def)
  have perr: "perr = None" using PrepareBatchPayments_Some(1) [OF prep] .
  define s3 where "s3 = snd (time_Now env (s1\<lparr>world := w1\<rparr>))"
  define res1 where "res1 = res0\<lparr>res_PreparedTime := fst (time_Now env (s1\<lparr>world := w1\<rparr>))\<rparr>"
  from assms sender prep perr w
  have "batchSubmit env arg events res1 (fst sender) prepared s3 = Some ((res, None), s')"
    by (simp add: Batch_def Let_def s1_def [symmetric] res0_def [symmetric] s3_def res1_def)
  from batchSubmit_Some [OF this] sender prep perr show ?thesis
    by (auto simp: res1_def res0_def zeroBatchResultLocal_def)
qed

lemma submitLoop_from_start:
  assumes "submitLoop env acct prepared 0
             (replicate (length prepared) zeroBatchPaymentResult, [], s1) = Inr (rl, wt, s2)"
  shows "submit_inv env prepared (length prepared) rl wt"
  using submitLoop_inv [OF submit_inv_start _ assms] by simp

lemma submit_inv_final:
  assumes inv: "submit_inv env prepared (length prepared) rl wt"
  shows "length rl = length prepared"
    and "map bp_Username rl = map (\<lambda>m. mp_Username (the m)) prepared"
    and "\<forall>r\<in>set rl. bp_StatusDescription r = PaymentStatusRevMap env (bp_Status r)"
    and "bp_Status ` set rl \<subseteq>
           {PaymentStatus_PENDING env, PaymentStatus_COMPLETED env, PaymentStatus_ERROR env}"
    and "resultList ws0 = rl \<Longrightarrow> waiting ws0 = wt \<Longrightarrow> wait_inv env ws0"
    and "j < length prepared \<Longrightarrow> mp_Error (the (prepared ! j)) = Some e \<Longrightarrow>
           j \<notin> snd ` set wt \<and> bp_Status (rl ! j) = PaymentStatus_ERROR env \<and>
           bp_Error (rl ! j) = Some e \<and> bp_Username (rl ! j) = mp_Username (the (prepared ! j))"
proof -
  from inv have len: "length rl = length prepared"
    and ok: "\<And>j. j < length prepared \<Longrightarrow> \<exists>m. prepared ! j = Some m \<and> submitted_ok env m (rl ! j)"
    and wts: "\<forall>(t, k)\<in>set wt. k < length prepared \<and>
                bp_Status (rl ! k) = PaymentStatus_PENDING env \<and>
                (\<exists>m. prepared ! k = Some m \<and> mp_Error m = None)"
    and dist: "distinct (map snd wt)"
    by (auto simp: submit_inv_def)
  show "length rl = length prepared" by (rule len)
  show "map bp_Username rl = map (\<lambda>m. mp_Username (the m)) prepared"
  proof (rule nth_equalityI)
    show "length (map bp_Username rl) = length (map (\<lambda>m. mp_Username (the m)) prepared)"
      using len by simp
    fix j assume "j < length (map bp_Username rl)"
    then have j: "j < length prepared" using len by simp
    from ok [OF j] show "map bp_Username rl ! j = map (\<lambda>m. mp_Username (the m)) prepared ! j"
      using j len by (auto simp: submitted_ok_def)
  qed
  have each: "\<exists>m. submitted_ok env m r" if "r \<in> set rl" for r
  proof -
    from that obtain j where "j < length rl" and "rl ! j = r" by (auto simp: in_set_conv_nth)
    with ok [of j] len show ?thesis by auto
  qed
  show "\<forall>r\<in>set rl. bp_StatusDescription r = PaymentStatusRevMap env (bp_Status r)"
    using each by (auto simp: submitted_ok_def)
  show "bp_Status ` set rl \<subseteq>
           {PaymentStatus_PENDING env, PaymentStatus_COMPLETED env, PaymentStatus_ERROR env}"
    using each by (auto simp: submitted_ok_def)
  show "wait_inv env ws0" if "resultList ws0 = rl" and "waiting ws0 = wt"
    using that wts dist len by (auto simp: wait_inv_def)
  show "j \<notin> snd ` set wt \<and> bp_Status (rl ! j) = PaymentStatus_ERROR env \<and>
           bp_Error (rl ! j) = Some e \<and> bp_Username (rl ! j) = mp_Username (the (prepared ! j))"
    if j: "j < length prepared" and e: "mp_Error (the (prepared ! j)) = Some e"
  proof -
    from ok [OF j] obtain m where m: "prepared ! j = Some m" and sm: "submitted_ok env m (rl ! j)"
      by blast
    have "j \<notin> snd ` set wt"
    proof
      assume "j \<in> snd ` set wt"
      then obtain t where "(t, j) \<in> set wt" by auto
      with wts have "\<exists>m. prepared ! j = Some m \<and> mp_Error m = None" by auto
      with m e show False by simp
    qed
    with m e sm show ?thesis by (auto simp: submitted_ok_def)
  qed
qed

lemma list_all2_in_setD:
  "list_all2 P xs ys \<Longrightarrow> x \<in> set xs \<Longrightarrow> \<exists>y\<in>set ys. P x y"
  by (induction rule: list_all2_induct) auto

lemma prepareBatchPayment_lookup_failed:
  "LookupRecipient env (arg_Recipient p) = Inl e \<Longrightarrow>
   prepareBatchPayment env w seed p =
     Some (\<lparr>mp_Username = NewNormalizedUsername env (arg_Recipient p), mp_Direct = None,
            mp_Relay = None, mp_TxID = [], mp_Seqno = 0,
            mp_Error = Some ''error looking up recipient''\<rparr>, w)"
  by (simp add: prepareBatchPayment_def)

lemma PrepareBatchPayments_entry:
  assumes prep: "PrepareBatchPayments env w seed payments sched arrival = Some ((prepared, perr), w1)"
    and sched: "is_interleaving (length payments) sched"
    and arrival: "is_interleaving (length payments) arrival"
    and p: "p \<in> set payments"
  shows "\<exists>j m wa wb. j < length prepared \<and> prepared ! j = Some m \<and>
           prepareBatchPayment env wa seed p = Some (m, wb)"
proof -
  obtain finished where fin: "prepareAll env w seed (map ((!) payments) sched) = Some (finished, w1)"
    and prepared: "prepared = map Some (sort_key mp_Seqno (map ((!) finished) arrival))"
    using PrepareBatchPayments_Some(2) [OF prep] by blast
  have len: "length finished = length payments"
    using prepareAll_length [OF fin] interleaving_length [OF sched] by simp
  have "p \<in> set (map ((!) payments) sched)"
    using p interleaving_set_nth [OF sched] by simp
  from list_all2_in_setD [OF prepareAll_all2 [OF fin] this]
  obtain m wa wb where m: "m \<in> set finished"
    and pm: "prepareBatchPayment env wa seed p = Some (m, wb)" by blast
  have "set (map ((!) finished) arrival) = set finished"
    using interleaving_set_nth [of finished arrival] arrival len by simp
  then have "Some m \<in> set prepared" using m by (simp add: prepared)
  then obtain j where "j < length prepared" and "prepared ! j = Some m"
    by (auto simp: in_set_conv_nth)
  with pm show ?thesis by blast
qed

lemma batchSubmit_error:
  assumes "batchSubmit env arg events res0 acct prepared s = Some ((res, Some e), s')"
  shows "res_Payments res = res_Payments res0 \<and> res_CountSuccess res = res_CountSuccess res0 \<and>
         res_CountPending res = res_CountPending res0 \<and> res_CountError res = res_CountError res0"
proof -
  define s1 where "s1 = s\<lparr>world := snd (GetListener env (world s))\<rparr>"
  show ?thesis
  proof (cases "fst (GetListener env (world s))")
    case (Some e')
    with assms have "deferEndTime env res0 (Some e') s1 = ((res, Some e), s')"
      by (simp add: batchSubmit_def Let_def s1_def)
    from deferEndTime_fields [OF this] show ?thesis by simp
  next
    case None
    show ?thesis
    proof (cases "submitLoop env acct prepared 0
             (replicate (length prepared) zeroBatchPaymentResult, [], s1)")
      case (Inl failed)
      with assms None have "deferRemoveListener env res0 (Some (fst failed)) (snd failed) =
          ((res, Some e), s')"
        by (simp add: batchSubmit_def Let_def s1_def)
      from deferRemoveListener_fields [OF this] show ?thesis by simp
    next
      case (Inr acc)
      with assms None have "batchWait env arg events res0 acc = Some ((res, Some e), s')"
        by (simp add: batchSubmit_def Let_def s1_def)
      then show ?thesis using batchWait_Some(1) [of env arg events res0 "fst acc" "fst (snd acc)"
          "snd (snd acc)" res "Some e" s'] by simp
    qed
  qed
qed

lemma Batch_error_no_payments:
  assumes "Batch env s arg sched arrival events = Some ((res, Some e), s')"
  shows "res_Payments res = [] \<and> res_CountSuccess res = 0 \<and> res_CountPending res = 0 \<and>
         res_CountError res = 0"
proof -
  define s1 where "s1 = snd (time_Now env s)"
  define res0 where "res0 = zeroBatchResultLocal\<lparr>res_StartTime := fst (time_Now env s)\<rparr>"
  have z: "res_Payments res0 = [] \<and> res_CountSuccess res0 = 0 \<and> res_CountPending res0 = 0 \<and>
           res_CountError res0 = 0"
    by (simp add: res0_def zeroBatchResultLocal_def)
  show ?thesis
  proof (cases "LookupSenderSeed env")
    case (Inl e')
    with assms have "deferEndTime env res0 (Some e') s1 = ((res, Some e), s')"
      by (simp add: Batch_def Let_def s1_def res0_def)
    from deferEndTime_fields [OF this] z show ?thesis by simp
  next
    case (Inr sender)
    show ?thesis
    proof (cases "PrepareBatchPayments env (world s1) (snd sender) (arg_Payments arg) sched arrival")
      case None
      with assms Inr show ?thesis by (simp add: Batch_def Let_def s1_def)
    next
      case (Some prep)
      have perr: "snd (fst prep) = None"
        using PrepareBatchPayments_Some(1) [of env "world s1" "snd sender" "arg_Payments arg"
            sched arrival "fst (fst prep)" "snd (fst prep)" "snd prep"] Some by simp
      define res1 where
        "res1 = res0\<lparr>res_PreparedTime := fst (time_Now env (s1\<lparr>world := snd prep\<rparr>))\<rparr>"
      from assms Inr Some perr
      have "batchSubmit env arg events res1 (fst sender) (fst (fst prep))
              (snd (time_Now env (s1\<lparr>world := snd prep\<rparr>))) = Some ((res, Some e), s')"
        by (simp add: Batch_def Let_def s1_def [symmetric] res0_def [symmetric] res1_def)
      from batchSubmit_error [OF this] z show ?thesis by (simp add: res1_def)
    qed
  qed
qed

lemma demo_batch_raw:
  "prepareBatchPayment rawAccountEnv 9 ''SSEED'' (pay ''GALICE'' ''5'') = None"
  "PrepareBatchPayments rawAccountEnv 9 ''SSEED'' [pay ''GALICE'' ''5''] [0] [0] = None"
  "Batch rawAccountEnv demoState rawAccountArg [0] [0] [] = None"
  by (simp_all add: Batch_def PrepareBatchPayments_def prepareBatchPayment_def
        prepareBatchPaymentDirect_def rawAccountEnv_def rawAccountArg_def demoEnv_def
        demoState_def pay_def time_Now_def Let_def minAmountCreateAccountXLM_def)

lemma PrepareBatchPayments_entries_non_nil:
  assumes "is_interleaving (length payments) sched"
    and "is_interleaving (length payments) arrival"
  shows "((\<forall>p\<in>set payments. \<not> preparePanics env p) \<longrightarrow>
            PrepareBatchPayments env w seed payments sched arrival \<noteq> None) \<and>
         (\<forall>prepared err w1.
            PrepareBatchPayments env w seed payments sched arrival = Some ((prepared, err), w1) \<longrightarrow>
            err = None \<and> None \<notin> set prepared \<and> length prepared = length payments \<and>
            (\<forall>acct i acc. \<exists>acc'. submitLoop env acct prepared i acc = Inr acc'))"
proof (intro conjI allI impI)
  assume "\<forall>p\<in>set payments. \<not> preparePanics env p"
  then show "PrepareBatchPayments env w seed payments sched arrival \<noteq> None"
    using PrepareBatchPayments_None_iff [OF assms(1), of env w seed arrival] by simp
next
  fix prepared err w1
  assume prep: "PrepareBatchPayments env w seed payments sched arrival = Some ((prepared, err), w1)"
  show "err = None" using PrepareBatchPayments_Some(1) [OF prep] .
  show "None \<notin> set prepared" using PrepareBatchPayments_facts(2) [OF prep assms] .
  show "length prepared = length payments" using PrepareBatchPayments_facts(1) [OF prep assms] .
  fix acct i acc
  show "\<exists>acc'. submitLoop env acct prepared i acc = Inr acc'"
    using submitLoop_no_nil [OF \<open>None \<notin> set prepared\<close>] .
qed

lemma demo_batch_timeout:
  "Batch demoEnv demoState demoArg [0, 1] [0, 1] demoEventsTimeout =
     Some ((demoResultTimeout, None), demoFinalTimeout)"
  by (simp add: Batch_def demoEnv_def demoState_def demoArg_def demoPayments_def pay_def
        demoEventsTimeout_def demoResultTimeout_def demoResultBob_def demoResultAlicePending_def
        demoFinalTimeout_def
        time_Now_def PrepareBatchPayments_def prepareBatchPayment_def
        prepareBatchPaymentDirect_def batchSubmit_def batchWait_def submitOne_def
        submitBatchTx_def makeResultError_def waitStep_def calculateStats_def statsBody_def
        deferRemoveListener_def deferEndTime_def zeroBatchPaymentResult_def
        zeroBatchResultLocal_def int64_div_def signed_divide_int_def Let_def
        minAmountCreateAccountXLM_def)

lemma submitOne_error_entry:
  assumes "mp_Error m = Some e"
  shows "\<exists>r st'. submitOne env acct m i (rl, wt, st) = (rl[i := r], wt, st') \<and>
           world st' = world st \<and> chatsSent st' = chatsSent st \<and>
           bp_Username r = mp_Username m \<and> bp_Status r = PaymentStatus_ERROR env \<and>
           bp_StatusDescription r = PaymentStatusRevMap env (PaymentStatus_ERROR env) \<and>
           bp_Error r = Some e \<and> bp_TxID r = []"
proof -
  let ?r = "\<lparr>bp_Username = mp_Username m, bp_StartTime = now env (clockReads st),
             bp_SubmittedTime = 0, bp_EndTime = now env (Suc (clockReads st)), bp_TxID = [],
             bp_Status = PaymentStatus_ERROR env,
             bp_StatusDescription = PaymentStatusRevMap env (PaymentStatus_ERROR env),
             bp_Error = Some e\<rparr>"
  have "submitOne env acct m i (rl, wt, st) =
          (rl[i := ?r], wt, st\<lparr>clockReads := Suc (Suc (clockReads st))\<rparr>)"
    using assms
    by (simp add: submitOne_def makeResultError_def time_Now_def zeroBatchPaymentResult_def Let_def)
  then show ?thesis by force
qed

lemma prepareAll_append:
  "prepareAll env w seed (xs @ ys) =
    (case prepareAll env w seed xs of
       None \<Rightarrow> None
     | Some (ms1, w1) \<Rightarrow>
       (case prepareAll env w1 seed ys of
          None \<Rightarrow> None
        | Some (ms2, w2) \<Rightarrow> Some (ms1 @ ms2, w2)))"
  by (induction xs arbitrary: w) (auto split: option.splits)

lemma prepareAll_skip:
  assumes "\<And>w. prepareBatchPayment env w seed p = Some (entry, w)"
  shows "prepareAll env w seed (before @ p # after) =
    (case prepareAll env w seed (before @ after) of
       None \<Rightarrow> None
     | Some (ms, w') \<Rightarrow>
         Some (take (length before) ms @ entry # drop (length before) ms, w'))"
proof (cases "prepareAll env w seed before")
  case None
  then show ?thesis by (simp add: prepareAll_append)
next
  case (Some a)
  obtain ms1 w1 where a: "a = (ms1, w1)" by (cases a)
  have len: "length ms1 = length before"
    using prepareAll_length [of env w seed before ms1 w1] Some a by simp
  show ?thesis
    using Some a len assms [of w1]
    by (auto simp: prepareAll_append split: option.splits)
qed

lemma list_all2_count_le:
  assumes "list_all2 R xs ys" and "\<And>m. R p m \<Longrightarrow> m = E"
  shows "count (mset xs) p \<le> count (mset ys) E"
  using assms(1)
proof (induction rule: list_all2_induct)
  case Nil
  show ?case by simp
next
  case (Cons x xs y ys)
  then show ?case using assms(2) [of y] by auto
qed

lemma count_map_Some: "count (mset (map Some xs)) (Some x) = count (mset xs) x"
  by (induction xs) auto

lemma PrepareBatchPayments_count:
  assumes prep: "PrepareBatchPayments env w seed payments sched arrival = Some ((prepared, perr), w1)"
    and sched: "is_interleaving (length payments) sched"
    and arrival: "is_interleaving (length payments) arrival"
    and only: "\<And>wa m wb. prepareBatchPayment env wa seed p = Some (m, wb) \<Longrightarrow> m = E"
  shows "count (mset payments) p \<le> count (mset prepared) (Some E)"
proof -
  obtain finished where fin: "prepareAll env w seed (map ((!) payments) sched) = Some (finished, w1)"
    and prepared: "prepared = map Some (sort_key mp_Seqno (map ((!) finished) arrival))"
    using PrepareBatchPayments_Some(2) [OF prep] by blast
  have len: "length finished = length payments"
    using prepareAll_length [OF fin] interleaving_length [OF sched] by simp
  have recv: "mset (map ((!) finished) arrival) = mset finished"
    using interleaving_mset_nth [of finished arrival] arrival len by simp
  have "mset prepared = mset (map Some finished)"
    using recv by (simp add: prepared)
  then have c: "count (mset prepared) (Some E) = count (mset finished) E"
    using count_map_Some [of finished E] by simp
  have "count (mset (map ((!) payments) sched)) p \<le> count (mset finished) E"
    by (rule list_all2_count_le [OF prepareAll_all2 [OF fin]]) (use only in blast)
  then show ?thesis
    using c interleaving_mset_nth [OF sched] by simp
qed

lemma demo_batch:
  "Batch demoEnv demoState demoArg [0, 1] [0, 1] demoEvents = Some ((demoResult, None), demoFinal)"
  by (simp add: Batch_def demoEnv_def demoState_def demoArg_def demoPayments_def pay_def
        demoEvents_def demoResult_def demoResultBob_def demoResultAlice_def demoFinal_def
        time_Now_def PrepareBatchPayments_def prepareBatchPayment_def
        prepareBatchPaymentDirect_def batchSubmit_def batchWait_def submitOne_def
        submitBatchTx_def makeResultError_def waitStep_def calculateStats_def statsBody_def
        deferRemoveListener_def deferEndTime_def zeroBatchPaymentResult_def
        zeroBatchResultLocal_def int64_div_def signed_divide_int_def Let_def
        minAmountCreateAccountXLM_def)

lemma demo_batch_other:
  "Batch demoEnv demoState demoArg [0, 1] [0, 1] demoEventsOther =
     Some ((demoResultOther, None), demoFinalOther)"
  by (simp add: Batch_def demoEnv_def demoState_def demoArg_def demoPayments_def pay_def
        demoEventsOther_def demoResultOther_def demoResultBob_def demoResultAliceOther_def
        demoFinalOther_def
        time_Now_def PrepareBatchPayments_def prepareBatchPayment_def
        prepareBatchPaymentDirect_def batchSubmit_def batchWait_def submitOne_def
        submitBatchTx_def makeResultError_def waitStep_def calculateStats_def statsBody_def
        deferRemoveListener_def deferEndTime_def zeroBatchPaymentResult_def
        zeroBatchResultLocal_def int64_div_def signed_divide_int_def Let_def
        minAmountCreateAccountXLM_def)

lemma demo_submit:
  "submitLoop demoEnv ''GSENDER'' [Some demoPreparedBob, Some demoPreparedAlice] 0
     (replicate (length [Some demoPreparedBob, Some demoPreparedAlice]) zeroBatchPaymentResult, [],
      \<lparr>clockReads = 2, world = 10, chatsSent = []\<rparr>) =
   Inr ([demoResultBob, demoResultAlicePending], [(''tx-GALICE'', 1)],
        \<lparr>clockReads = 6, world = 10, chatsSent = []\<rparr>)"
  by (simp add: demoEnv_def demoPreparedBob_def demoPreparedAlice_def demoResultBob_def
        demoResultAlicePending_def submitOne_def submitBatchTx_def makeResultError_def
        time_Now_def zeroBatchPaymentResult_def Let_def)

lemma demo_trace_other:
  "waitTrace demoEnv demoArg demoEventsOther demoWaitStart =
     [demoWaitStart,
      demoWaitStart\<lparr>resultList := [demoResultBob, demoResultAliceOther], waiting := [],
         waitingCount := 0, run := \<lparr>clockReads = 8, world = 10, chatsSent = []\<rparr>\<rparr>]"
  by (simp add: demoEnv_def demoArg_def demoEventsOther_def demoWaitStart_def waitStep_def
        demoResultBob_def demoResultAlicePending_def demoResultAliceOther_def time_Now_def Let_def)

lemma demo_trace:
  "waitTrace demoEnv demoArg demoEvents demoWaitStart =
     [demoWaitStart,
      demoWaitStart\<lparr>resultList := [demoResultBob, demoResultAlice], waiting := [],
         waitingCount := 0,
         run := \<lparr>clockReads = 8, world = 10, chatsSent = [(''alice'', ''tx-GALICE'')]\<rparr>\<rparr>]"
  by (simp add: demoEnv_def demoArg_def demoEvents_def demoWaitStart_def waitStep_def
        demoResultBob_def demoResultAlicePending_def demoResultAlice_def time_Now_def Let_def)

lemma demo_batch_no_wallet:
  "Batch noWalletEnv demoState demoArg [0, 1] [0, 1] demoEvents =
     Some ((zeroBatchResultLocal\<lparr>res_EndTime := 100\<rparr>, Some ''no wallet''),
           \<lparr>clockReads = 2, world = 9, chatsSent = []\<rparr>)"
  by (simp add: Batch_def noWalletEnv_def demoEnv_def demoState_def deferEndTime_def time_Now_def
        zeroBatchResultLocal_def Let_def)

lemma demo_interleaving_arg: "is_interleaving (length (arg_Payments demoArg)) [0, 1]"
  using demo_interleaving by (simp add: demoArg_def)

section \<open>The claims\<close>

text \<open>
  Claim C1, as amended. A batch that returns a result with a nil error returns one payment result per input payment, in the order of the prepared list, which is sorted by sequence number: result.payments[i] carries the username of prepared[i]. The usernames of the result are those of the input payments as a multiset; the index in the input is not kept.
\<close>

theorem C1_results_in_prepared_order:
  assumes run: "Batch env s arg sched arrival events = Some ((res, None), s')"
    and sched: "is_interleaving (length (arg_Payments arg)) sched"
    and arrival: "is_interleaving (length (arg_Payments arg)) arrival"
  shows "\<exists>sender prepared w1.
           LookupSenderSeed env = Inr sender \<and>
           PrepareBatchPayments env (world s) (snd sender) (arg_Payments arg) sched arrival =
             Some ((prepared, None), w1) \<and>
           length (res_Payments res) = length (arg_Payments arg) \<and>
           map bp_Username (res_Payments res) = map mp_Username (map the prepared) \<and>
           mset (map bp_Username (res_Payments res)) =
             mset (map (NewNormalizedUsername env) (map arg_Recipient (arg_Payments arg)))"
proof -
  from Batch_Some [OF run] obtain sender prepared w1 rl wt s1 s2 ws0 ws where
    sender: "LookupSenderSeed env = Inr sender"
    and prep: "PrepareBatchPayments env (world s) (snd sender) (arg_Payments arg) sched arrival =
             Some ((prepared, None), w1)"
    and sub: "submitLoop env (fst sender) prepared 0
             (replicate (length prepared) zeroBatchPaymentResult, [], s1) = Inr (rl, wt, s2)"
    and ws0: "resultList ws0 = rl" "waiting ws0 = wt"
    and loop: "waitLoop env arg events ws0 = Some ws"
    and pay: "res_Payments res = resultList ws"
    by blast
  note inv = submitLoop_from_start [OF sub]
  have users: "map bp_Username (res_Payments res) = map (\<lambda>m. mp_Username (the m)) prepared"
    using waitLoop_props(2) [OF loop] submit_inv_final(2) [OF inv] ws0 pay by simp
  have len: "length (res_Payments res) = length (arg_Payments arg)"
    using waitLoop_props(1) [OF loop] submit_inv_final(1) [OF inv] ws0 pay
      PrepareBatchPayments_facts(1) [OF prep sched arrival] by simp
  have "mset (map bp_Username (res_Payments res)) =
          mset (map (\<lambda>p. NewNormalizedUsername env (arg_Recipient p)) (arg_Payments arg))"
    using users PrepareBatchPayments_facts(4) [OF prep sched arrival] by simp
  with sender prep users len show ?thesis by (auto simp: comp_def)
qed

text \<open>
  Claim C1, witness: the batch of the two payments to alice and bob, with one update that completes alice's payment.
\<close>

theorem C1_witness:
  "Batch demoEnv demoState demoArg [0, 1] [0, 1] demoEvents = Some ((demoResult, None), demoFinal) \<and>
   is_interleaving (length (arg_Payments demoArg)) [0, 1] \<and>
   PrepareBatchPayments demoEnv (world demoState) ''SSEED'' (arg_Payments demoArg) [0, 1] [0, 1] =
     Some (([Some demoPreparedBob, Some demoPreparedAlice], None), 10) \<and>
   map bp_Username (res_Payments demoResult) =
     map mp_Username [demoPreparedBob, demoPreparedAlice] \<and>
   length (res_Payments demoResult) = length (arg_Payments demoArg)"
proof -
  have il: "is_interleaving (length (arg_Payments demoArg)) [0, 1]"
    using demo_interleaving by (simp add: demoArg_def)
  have prep: "PrepareBatchPayments demoEnv (world demoState) ''SSEED'' (arg_Payments demoArg)
                [0, 1] [0, 1] = Some (([Some demoPreparedBob, Some demoPreparedAlice], None), 10)"
    using demo_prepare by (simp add: demoArg_def demoState_def)
  from C1_results_in_prepared_order [OF demo_batch il il] prep demo_batch il
  show ?thesis by (auto simp: demoEnv_def)
qed

text \<open>
  Claim C1, counterexample to the claim as stated: the input is [alice, bob]; bob's lookup fails, so his entry has Seqno 0 and is sorted before alice's (seqno 10); result.payments[0] is bob's, not the result of input.payments[0].
\<close>

theorem C1_counterexample:
  "Batch demoEnv demoState demoArg [0, 1] [0, 1] demoEvents = Some ((demoResult, None), demoFinal) \<and>
   NewNormalizedUsername demoEnv (arg_Recipient (arg_Payments demoArg ! 0)) = ''alice'' \<and>
   bp_Username (res_Payments demoResult ! 0) = ''bob'' \<and>
   bp_Username (res_Payments demoResult ! 0) \<noteq>
     NewNormalizedUsername demoEnv (arg_Recipient (arg_Payments demoArg ! 0))"
  using demo_batch
  by (simp add: demoEnv_def demoArg_def demoPayments_def pay_def demoResult_def demoResultBob_def)

text \<open>
  Claim C2, as amended. The list returned by PrepareBatchPayments is in ascending order of the Seqno field. An entry with an error (a PrepareErr) has Seqno zero, so it stands before every entry whose sequence number is positive, not after the Ok entries; the Ok entries are in ascending seqno order.
\<close>

theorem C2_prepared_sorted_errors_first:
  assumes "PrepareBatchPayments env w seed payments sched arrival = Some ((prepared, err), w1)"
    and "is_interleaving (length payments) sched"
    and "is_interleaving (length payments) arrival"
  shows "sorted (map mp_Seqno (map the prepared)) \<and>
         (\<forall>m\<in>set (map the prepared). mp_Error m \<noteq> None \<longrightarrow> mp_Seqno m = 0) \<and>
         (\<forall>i j. i < length prepared \<and> j < length prepared \<and>
                 mp_Error (map the prepared ! i) \<noteq> None \<and> 0 < mp_Seqno (map the prepared ! j)
                 \<longrightarrow> i < j)"
proof -
  have srt: "sorted (map mp_Seqno (map the prepared))"
    using PrepareBatchPayments_facts(3) [OF assms] by (simp add: comp_def)
  have zero: "\<forall>m\<in>set (map the prepared). mp_Error m \<noteq> None \<longrightarrow> mp_Seqno m = 0"
    using PrepareBatchPayments_facts(5) [OF assms] by auto
  have "i < j" if i: "i < length prepared" and j: "j < length prepared"
    and e: "mp_Error (map the prepared ! i) \<noteq> None" and pos: "0 < mp_Seqno (map the prepared ! j)"
    for i j
  proof (rule ccontr)
    assume "\<not> i < j"
    then have "j \<le> i" by simp
    with srt i have "map mp_Seqno (map the prepared) ! j \<le> map mp_Seqno (map the prepared) ! i"
      by (simp add: sorted_iff_nth_mono)
    then have "mp_Seqno (map the prepared ! j) \<le> mp_Seqno (map the prepared ! i)"
      using i j by simp
    moreover have "mp_Seqno (map the prepared ! i) = 0"
      using zero e i by (metis length_map nth_mem)
    ultimately show False using pos by simp
  qed
  with srt zero show ?thesis by blast
qed

text \<open>
  Claim C2, witness: the amended statement at the two payments to alice (prepared, seqno 10) and bob (lookup fails).
\<close>

theorem C2_witness:
  "PrepareBatchPayments demoEnv 9 ''SSEED'' demoPayments [0, 1] [0, 1] =
     Some (([Some demoPreparedBob, Some demoPreparedAlice], None), 10) \<and>
   is_interleaving (length demoPayments) [0, 1] \<and>
   sorted (map mp_Seqno [demoPreparedBob, demoPreparedAlice]) \<and>
   mp_Error demoPreparedBob \<noteq> None \<and> mp_Seqno demoPreparedBob = 0 \<and>
   0 < mp_Seqno demoPreparedAlice"
proof -
  note il = demo_interleaving
  from C2_prepared_sorted_errors_first [OF demo_prepare il il] demo_prepare il
  show ?thesis by (simp add: demoPreparedBob_def demoPreparedAlice_def)
qed

text \<open>
  Claim C2, counterexample to the claim as stated: for the payments to alice and bob the returned list holds bob's PrepareErr entry before alice's Ok entry, so the errors are not after the Ok entries.
\<close>

theorem C2_counterexample:
  "PrepareBatchPayments demoEnv 9 ''SSEED'' demoPayments [0, 1] [0, 1] =
     Some (([Some demoPreparedBob, Some demoPreparedAlice], None), 10) \<and>
   mp_Error demoPreparedBob \<noteq> None \<and> mp_Error demoPreparedAlice = None \<and>
   \<not> errors_last [demoPreparedBob, demoPreparedAlice]"
  using demo_prepare by (simp add: errors_last_def demoPreparedBob_def demoPreparedAlice_def)

text \<open>
  Claim C3, the code at a failing input. The batch [alice, bob] times out while alice's payment is PENDING; bob's is ERROR with a duration of 100 ms. calculateStats adds the pending payment's EndTime - StartTime (0 - 400) to durationTotal as well and divides by countDone = 1: avgDurationMs is -300, where the average over the terminal payments is 100.
\<close>

theorem C3_avg_duration_counts_pending:
  "Batch demoEnv demoState demoArg [0, 1] [0, 1] demoEventsTimeout =
     Some ((demoResultTimeout, None), demoFinalTimeout) \<and>
   map bp_Status (res_Payments demoResultTimeout) =
     [PaymentStatus_ERROR demoEnv, PaymentStatus_PENDING demoEnv] \<and>
   res_AvgDurationMs demoResultTimeout = - 300 \<and>
   res_AvgDurationMs (calculateStats demoEnv
     (zeroBatchResultLocal\<lparr>res_Payments := res_Payments demoResultTimeout\<rparr>)) = - 300 \<and>
   spec_avgDurationMs demoEnv (res_Payments demoResultTimeout) = 100"
  using demo_batch_timeout
  by (simp add: demoResultTimeout_def demoResultBob_def demoResultAlicePending_def demoEnv_def
        spec_avgDurationMs_def calculateStats_def statsBody_def zeroBatchResultLocal_def
        int64_div_def signed_divide_int_def Let_def)

text \<open>
  Claim C4, as amended. For every BatchResult that Batch returns with a nil error, countSuccess + countPending + countError is the number of input payments, the result list has one entry per input payment, and each payment result is counted by exactly one counter (COMPLETED, else PENDING, else error). A BatchResult returned together with an error has no payments and all three counters at zero.
\<close>

theorem C4_counters_sum_to_input_length:
  assumes run: "Batch env s arg sched arrival events = Some ((res, err), s')"
    and sched: "is_interleaving (length (arg_Payments arg)) sched"
    and arrival: "is_interleaving (length (arg_Payments arg)) arrival"
  shows "(err = None \<longrightarrow>
            res_CountSuccess res + res_CountPending res + res_CountError res =
              int (length (arg_Payments arg)) \<and>
            length (res_Payments res) = length (arg_Payments arg) \<and>
            (res_CountSuccess res, res_CountPending res, res_CountError res) =
              statusCounts env (res_Payments res)) \<and>
         (err \<noteq> None \<longrightarrow>
            res_Payments res = [] \<and> res_CountSuccess res = 0 \<and> res_CountPending res = 0 \<and>
            res_CountError res = 0)"
proof (cases err)
  case (Some e)
  with Batch_error_no_payments [of env s arg sched arrival events res e s'] run
  show ?thesis by simp
next
  case None
  with run have run': "Batch env s arg sched arrival events = Some ((res, None), s')" by simp
  from Batch_Some [OF run'] obtain sender prepared w1 rl wt s1 s2 ws0 ws where
    prep: "PrepareBatchPayments env (world s) (snd sender) (arg_Payments arg) sched arrival =
             Some ((prepared, None), w1)"
    and sub: "submitLoop env (fst sender) prepared 0
             (replicate (length prepared) zeroBatchPaymentResult, [], s1) = Inr (rl, wt, s2)"
    and ws0: "resultList ws0 = rl" "waiting ws0 = wt"
    and loop: "waitLoop env arg events ws0 = Some ws"
    and pay: "res_Payments res = resultList ws"
    and counts: "res_CountSuccess res = fst (statusCounts env (resultList ws))"
      "res_CountPending res = fst (snd (statusCounts env (resultList ws)))"
      "res_CountError res = snd (snd (statusCounts env (resultList ws)))"
    by blast
  note inv = submitLoop_from_start [OF sub]
  have len: "length (res_Payments res) = length (arg_Payments arg)"
    using waitLoop_props(1) [OF loop] submit_inv_final(1) [OF inv] ws0 pay
      PrepareBatchPayments_facts(1) [OF prep sched arrival] by simp
  have "res_CountSuccess res + res_CountPending res + res_CountError res =
          int (length (res_Payments res))"
    using counts statusCounts_sum [of env "resultList ws"] pay by simp
  moreover have "(res_CountSuccess res, res_CountPending res, res_CountError res) =
           statusCounts env (res_Payments res)"
    using counts pay by simp
  ultimately show ?thesis using len None by simp
qed

text \<open>
  Claim C4, witness: the batch of alice and bob (one success, one error), and the same batch when the sender lookup fails.
\<close>

theorem C4_witness:
  "Batch demoEnv demoState demoArg [0, 1] [0, 1] demoEvents = Some ((demoResult, None), demoFinal) \<and>
   is_interleaving (length (arg_Payments demoArg)) [0, 1] \<and>
   res_CountSuccess demoResult = 1 \<and> res_CountPending demoResult = 0 \<and>
   res_CountError demoResult = 1 \<and> length (arg_Payments demoArg) = 2 \<and>
   res_CountSuccess demoResult + res_CountPending demoResult + res_CountError demoResult =
     int (length (arg_Payments demoArg)) \<and>
   length (res_Payments demoResult) = length (arg_Payments demoArg) \<and>
   Batch noWalletEnv demoState demoArg [0, 1] [0, 1] demoEvents =
     Some ((zeroBatchResultLocal\<lparr>res_EndTime := 100\<rparr>, Some ''no wallet''),
           \<lparr>clockReads = 2, world = 9, chatsSent = []\<rparr>) \<and>
   res_Payments (zeroBatchResultLocal\<lparr>res_EndTime := 100\<rparr>) = []"
  using C4_counters_sum_to_input_length [OF demo_batch demo_interleaving_arg demo_interleaving_arg]
    C4_counters_sum_to_input_length [OF demo_batch_no_wallet demo_interleaving_arg
      demo_interleaving_arg]
    demo_batch demo_batch_no_wallet demo_interleaving_arg
  by (simp add: demoResult_def demoArg_def demoPayments_def)

text \<open>
  Claim C4, counterexample to the claim as stated: when the sender lookup fails, Batch returns a BatchResult with no payments and counters 0 + 0 + 0 for an input of two payments.
\<close>

theorem C4_counterexample:
  "Batch noWalletEnv demoState demoArg [0, 1] [0, 1] demoEvents =
     Some ((zeroBatchResultLocal\<lparr>res_EndTime := 100\<rparr>, Some ''no wallet''),
           \<lparr>clockReads = 2, world = 9, chatsSent = []\<rparr>) \<and>
   length (arg_Payments demoArg) = 2 \<and>
   length (res_Payments (zeroBatchResultLocal\<lparr>res_EndTime := 100\<rparr>)) = 0 \<and>
   res_CountSuccess (zeroBatchResultLocal\<lparr>res_EndTime := 100\<rparr>) +
     res_CountPending (zeroBatchResultLocal\<lparr>res_EndTime := 100\<rparr>) +
     res_CountError (zeroBatchResultLocal\<lparr>res_EndTime := 100\<rparr>) = 0"
  using demo_batch_no_wallet
  by (simp add: demoArg_def demoPayments_def zeroBatchResultLocal_def)

text \<open>
  Claim C5, as amended. In every returned BatchResult each payment's statusDescription is PaymentStatusRevMap[status], and its status is COMPLETED, PENDING or ERROR or else a status that a listener update of the run carried: the wait loop stores update.Status as it arrives.
\<close>

theorem C5_status_description_agrees:
  assumes run: "Batch env s arg sched arrival events = Some ((res, err), s')"
  shows "\<forall>r\<in>set (res_Payments res).
           bp_StatusDescription r = PaymentStatusRevMap env (bp_Status r) \<and>
           (bp_Status r \<in> {PaymentStatus_COMPLETED env, PaymentStatus_PENDING env,
                            PaymentStatus_ERROR env} \<or>
            bp_Status r \<in> set (eventStatuses events))"
proof (cases err)
  case (Some e)
  with Batch_error_no_payments [of env s arg sched arrival events res e s'] run
  show ?thesis by simp
next
  case None
  with run have run': "Batch env s arg sched arrival events = Some ((res, None), s')" by simp
  from Batch_Some [OF run'] obtain sender prepared w1 rl wt s1 s2 ws0 ws where
    sender: "LookupSenderSeed env = Inr sender"
    and sub: "submitLoop env (fst sender) prepared 0
             (replicate (length prepared) zeroBatchPaymentResult, [], s1) = Inr (rl, wt, s2)"
    and ws0: "resultList ws0 = rl" "waiting ws0 = wt"
    and loop: "waitLoop env arg events ws0 = Some ws"
    and pay: "res_Payments res = resultList ws"
    by blast
  note inv = submitLoop_from_start [OF sub]
  have d: "\<forall>r\<in>set (resultList ws). bp_StatusDescription r = PaymentStatusRevMap env (bp_Status r)"
    using waitLoop_props(6) [OF loop] submit_inv_final(3) [OF inv] ws0 by simp
  have st: "bp_Status ` set (resultList ws) \<subseteq>
              {PaymentStatus_PENDING env, PaymentStatus_COMPLETED env, PaymentStatus_ERROR env}
              \<union> set (eventStatuses events)"
    using waitLoop_props(7) [OF loop] submit_inv_final(4) [OF inv] ws0 by blast
  show ?thesis
  proof
    fix r assume r: "r \<in> set (res_Payments res)"
    with st pay have "bp_Status r \<in>
        {PaymentStatus_PENDING env, PaymentStatus_COMPLETED env, PaymentStatus_ERROR env}
          \<union> set (eventStatuses events)" by auto
    with d r pay show "bp_StatusDescription r = PaymentStatusRevMap env (bp_Status r) \<and>
           (bp_Status r \<in> {PaymentStatus_COMPLETED env, PaymentStatus_PENDING env,
                            PaymentStatus_ERROR env} \<or>
            bp_Status r \<in> set (eventStatuses events))" by auto
  qed
qed

text \<open>
  Claim C5, witness: the batch of alice and bob with a COMPLETED update for alice.
\<close>

theorem C5_witness:
  "Batch demoEnv demoState demoArg [0, 1] [0, 1] demoEvents = Some ((demoResult, None), demoFinal) \<and>
   res_Payments demoResult = [demoResultBob, demoResultAlice] \<and>
   bp_Status demoResultBob = PaymentStatus_ERROR demoEnv \<and>
   bp_StatusDescription demoResultBob = PaymentStatusRevMap demoEnv (bp_Status demoResultBob) \<and>
   bp_StatusDescription demoResultBob = ''ERROR'' \<and>
   bp_Status demoResultAlice = PaymentStatus_COMPLETED demoEnv \<and>
   bp_StatusDescription demoResultAlice = PaymentStatusRevMap demoEnv (bp_Status demoResultAlice) \<and>
   bp_StatusDescription demoResultAlice = ''COMPLETED''"
  using C5_status_description_agrees [OF demo_batch] demo_batch
  by (simp add: demoResult_def demoResultBob_def demoResultAlice_def demoEnv_def)

text \<open>
  Claim C5, counterexample to the claim as stated: the listener sends status 6 for alice's pending transaction; the returned result has status 6, which is none of COMPLETED, PENDING and ERROR.
\<close>

theorem C5_counterexample:
  "Batch demoEnv demoState demoArg [0, 1] [0, 1] demoEventsOther =
     Some ((demoResultOther, None), demoFinalOther) \<and>
   bp_Status (res_Payments demoResultOther ! 1) = 6 \<and>
   bp_Status (res_Payments demoResultOther ! 1) \<noteq> PaymentStatus_COMPLETED demoEnv \<and>
   bp_Status (res_Payments demoResultOther ! 1) \<noteq> PaymentStatus_PENDING demoEnv \<and>
   bp_Status (res_Payments demoResultOther ! 1) \<noteq> PaymentStatus_ERROR demoEnv"
  using demo_batch_other
  by (simp add: demoResultOther_def demoResultAliceOther_def demoEnv_def)

text \<open>
  Claim C6, as amended. From one iteration of the wait loop to the next, the status of every payment result stays as it is or changes from PENDING to a status other than PENDING, the one the update carries, which need not be COMPLETED or ERROR. A result that is not PENDING keeps its status, and none is set back to PENDING. This holds from the state the submit loop leaves, for every sequence of events, and the last state of the sequence holds the payments of the returned result.
\<close>

theorem C6_status_changes_only_from_pending:
  "(submitLoop env acct prepared 0
       (replicate (length prepared) zeroBatchPaymentResult, [], s1) = Inr (rl, wt, s2) \<and>
    resultList ws0 = rl \<and> waiting ws0 = wt \<longrightarrow>
      bp_Status ` set rl \<subseteq>
        {PaymentStatus_PENDING env, PaymentStatus_COMPLETED env, PaymentStatus_ERROR env} \<and>
      successively (status_step env) (waitTrace env arg events ws0) \<and>
      (\<forall>ws. waitLoop env arg events ws0 = Some ws \<longrightarrow> last (waitTrace env arg events ws0) = ws))
   \<and>
   (Batch env s arg sched arrival events = Some ((res, None), s') \<longrightarrow>
      (\<exists>acct prepared s1 rl wt s2 ws0.
         submitLoop env acct prepared 0
           (replicate (length prepared) zeroBatchPaymentResult, [], s1) = Inr (rl, wt, s2) \<and>
         resultList ws0 = rl \<and> waiting ws0 = wt \<and>
         successively (status_step env) (waitTrace env arg events ws0) \<and>
         resultList (last (waitTrace env arg events ws0)) = res_Payments res))"
proof (intro conjI impI)
  assume a: "submitLoop env acct prepared 0
       (replicate (length prepared) zeroBatchPaymentResult, [], s1) = Inr (rl, wt, s2) \<and>
    resultList ws0 = rl \<and> waiting ws0 = wt"
  then have inv: "submit_inv env prepared (length prepared) rl wt"
    using submitLoop_from_start by blast
  show "bp_Status ` set rl \<subseteq>
        {PaymentStatus_PENDING env, PaymentStatus_COMPLETED env, PaymentStatus_ERROR env}"
    using submit_inv_final(4) [OF inv] .
  have "wait_inv env ws0" using submit_inv_final(5) [OF inv] a by blast
  then show "successively (status_step env) (waitTrace env arg events ws0)"
    by (rule waitTrace_steps)
  show "\<forall>ws. waitLoop env arg events ws0 = Some ws \<longrightarrow> last (waitTrace env arg events ws0) = ws"
    using waitLoop_last_trace by blast
next
  assume run: "Batch env s arg sched arrival events = Some ((res, None), s')"
  from Batch_Some [OF run] obtain sender prepared w1 rl wt s1 s2 ws0 ws where
    sender: "LookupSenderSeed env = Inr sender"
    and sub: "submitLoop env (fst sender) prepared 0
             (replicate (length prepared) zeroBatchPaymentResult, [], s1) = Inr (rl, wt, s2)"
    and ws0: "resultList ws0 = rl" "waiting ws0 = wt"
    and loop: "waitLoop env arg events ws0 = Some ws"
    and pay: "res_Payments res = resultList ws"
    by blast
  note inv = submitLoop_from_start [OF sub]
  have "wait_inv env ws0" using submit_inv_final(5) [OF inv ws0] .
  then have "successively (status_step env) (waitTrace env arg events ws0)"
    by (rule waitTrace_steps)
  moreover have "resultList (last (waitTrace env arg events ws0)) = res_Payments res"
    using waitLoop_last_trace [OF loop] pay by simp
  ultimately show "\<exists>acct prepared s1 rl wt s2 ws0.
         submitLoop env acct prepared 0
           (replicate (length prepared) zeroBatchPaymentResult, [], s1) = Inr (rl, wt, s2) \<and>
         resultList ws0 = rl \<and> waiting ws0 = wt \<and>
         successively (status_step env) (waitTrace env arg events ws0) \<and>
         resultList (last (waitTrace env arg events ws0)) = res_Payments res"
    using sub ws0 by blast
qed

text \<open>
  Claim C6, witness: the batch of alice and bob; alice's result goes from PENDING to COMPLETED, bob's stays ERROR.
\<close>

theorem C6_witness:
  "submitLoop demoEnv ''GSENDER'' [Some demoPreparedBob, Some demoPreparedAlice] 0
     (replicate (length [Some demoPreparedBob, Some demoPreparedAlice]) zeroBatchPaymentResult, [],
      \<lparr>clockReads = 2, world = 10, chatsSent = []\<rparr>) =
     Inr (resultList demoWaitStart, waiting demoWaitStart,
          \<lparr>clockReads = 6, world = 10, chatsSent = []\<rparr>) \<and>
   Batch demoEnv demoState demoArg [0, 1] [0, 1] demoEvents = Some ((demoResult, None), demoFinal) \<and>
   successively (status_step demoEnv) (waitTrace demoEnv demoArg demoEvents demoWaitStart) \<and>
   map bp_Status (resultList (waitTrace demoEnv demoArg demoEvents demoWaitStart ! 0)) = [4, 1] \<and>
   map bp_Status (resultList (waitTrace demoEnv demoArg demoEvents demoWaitStart ! 1)) = [4, 3] \<and>
   resultList (last (waitTrace demoEnv demoArg demoEvents demoWaitStart)) =
     res_Payments demoResult"
proof -
  have sub: "submitLoop demoEnv ''GSENDER'' [Some demoPreparedBob, Some demoPreparedAlice] 0
     (replicate (length [Some demoPreparedBob, Some demoPreparedAlice]) zeroBatchPaymentResult, [],
      \<lparr>clockReads = 2, world = 10, chatsSent = []\<rparr>) =
     Inr (resultList demoWaitStart, waiting demoWaitStart,
          \<lparr>clockReads = 6, world = 10, chatsSent = []\<rparr>)"
    using demo_submit by (simp add: demoWaitStart_def)
  have "successively (status_step demoEnv) (waitTrace demoEnv demoArg demoEvents demoWaitStart)"
    using C6_status_changes_only_from_pending
      [of demoEnv "''GSENDER''" "[Some demoPreparedBob, Some demoPreparedAlice]"
          "\<lparr>clockReads = 2, world = 10, chatsSent = []\<rparr>"
          "resultList demoWaitStart" "waiting demoWaitStart"
          "\<lparr>clockReads = 6, world = 10, chatsSent = []\<rparr>" demoWaitStart demoArg demoEvents]
      sub by blast
  moreover have
    "map bp_Status (resultList (waitTrace demoEnv demoArg demoEvents demoWaitStart ! 0)) = [4, 1]"
    "map bp_Status (resultList (waitTrace demoEnv demoArg demoEvents demoWaitStart ! 1)) = [4, 3]"
    "resultList (last (waitTrace demoEnv demoArg demoEvents demoWaitStart)) =
       res_Payments demoResult"
    unfolding demo_trace
    by (simp_all add: demoWaitStart_def demoResultBob_def demoResultAlice_def
          demoResultAlicePending_def demoResult_def)
  ultimately show ?thesis using sub demo_batch by simp
qed

text \<open>
  Claim C6, counterexample to the claim as stated: an update with status 6 takes alice's result from PENDING to 6, a transition that is neither PENDING to COMPLETED nor PENDING to ERROR.
\<close>

theorem C6_counterexample:
  "submitLoop demoEnv ''GSENDER'' [Some demoPreparedBob, Some demoPreparedAlice] 0
     (replicate (length [Some demoPreparedBob, Some demoPreparedAlice]) zeroBatchPaymentResult, [],
      \<lparr>clockReads = 2, world = 10, chatsSent = []\<rparr>) =
     Inr (resultList demoWaitStart, waiting demoWaitStart,
          \<lparr>clockReads = 6, world = 10, chatsSent = []\<rparr>) \<and>
   map bp_Status (resultList (waitTrace demoEnv demoArg demoEventsOther demoWaitStart ! 0)) = [4, 1] \<and>
   map bp_Status (resultList (waitTrace demoEnv demoArg demoEventsOther demoWaitStart ! 1)) = [4, 6] \<and>
   PaymentStatus_PENDING demoEnv = 1 \<and> PaymentStatus_COMPLETED demoEnv = 3 \<and>
   PaymentStatus_ERROR demoEnv = 4 \<and>
   Batch demoEnv demoState demoArg [0, 1] [0, 1] demoEventsOther =
     Some ((demoResultOther, None), demoFinalOther)"
  using demo_submit demo_batch_other unfolding demo_trace_other
  by (simp add: demoWaitStart_def demoResultBob_def demoResultAliceOther_def
        demoResultAlicePending_def demoEnv_def)

text \<open>
  Claim C7. A payment whose recipient resolves and whose amount isAmountLessThanMin reports below the minimum ("1" for a direct payment to an unfunded account, "2.01" for a relay payment) is prepared to an entry with the error "you must send at least ... XLM to fund the account for <recipient>" and no seqno; the preparation leaves the outside world (the sequence provider) as it was, in whatever state it runs; the preparations before and after it give what they give without it; and the submit loop turns the entry into an ERROR result without submitting anything.
\<close>

theorem C7_below_minimum_is_error_without_seqno:
  assumes lookup: "LookupRecipient env (arg_Recipient p) = Inr recipient"
    and below:
      "(\<exists>accountID. rcp_AccountID recipient = Some accountID \<and>
           isAccountFunded env accountID = Inr False \<and>
           isAmountLessThanMin env (arg_Amount p) minAmountCreateAccountXLM \<and> minimum = ''1'') \<or>
       (rcp_AccountID recipient = None \<and>
           isAmountLessThanMin env (arg_Amount p) minAmountRelayXLM \<and> minimum = ''2.01'')"
    and entry: "entry =
        \<lparr>mp_Username = NewNormalizedUsername env (arg_Recipient p), mp_Direct = None,
         mp_Relay = None, mp_TxID = [], mp_Seqno = 0,
         mp_Error = Some (''you must send at least '' @ minimum @
                          '' XLM to fund the account for '' @ arg_Recipient p)\<rparr>"
  shows "prepareBatchPayment env w seed p = Some (entry, w) \<and>
         prepareAll env w seed (before @ p # after) =
           (case prepareAll env w seed (before @ after) of
              None \<Rightarrow> None
            | Some (ms, w') \<Rightarrow>
                Some (take (length before) ms @ entry # drop (length before) ms, w')) \<and>
         (\<exists>r st'. submitOne env acct entry i (rl, wt, st) = (rl[i := r], wt, st') \<and>
            world st' = world st \<and> bp_Status r = PaymentStatus_ERROR env \<and>
            bp_Error r = mp_Error entry)"
proof -
  have one: "prepareBatchPayment env w seed p = Some (entry, w)" for w
    using lookup below entry
    by (auto simp: prepareBatchPayment_def prepareBatchPaymentDirect_def
          prepareBatchPaymentRelay_def minAmountCreateAccountXLM_def minAmountRelayXLM_def Let_def)
  have "\<exists>r st'. submitOne env acct entry i (rl, wt, st) = (rl[i := r], wt, st') \<and>
            world st' = world st \<and> bp_Status r = PaymentStatus_ERROR env \<and>
            bp_Error r = mp_Error entry"
    using submitOne_error_entry [of entry _ env acct i rl wt st] entry by auto
  with one prepareAll_skip [of env seed p entry w before after] show ?thesis by blast
qed

text \<open>
  Claim C7, witness: dave (unfunded account, amount 0.5) and carol (relay, amount 2.00), and carol's payment prepared before alice's.
\<close>

theorem C7_witness:
  "LookupRecipient demoEnv (arg_Recipient (pay ''dave'' ''0.5'')) =
     Inr \<lparr>rcp_Input = ''dave'', rcp_User = Some ''dave-uv'', rcp_AccountID = Some ''GDAVE''\<rparr> \<and>
   isAccountFunded demoEnv ''GDAVE'' = Inr False \<and>
   isAmountLessThanMin demoEnv (arg_Amount (pay ''dave'' ''0.5'')) minAmountCreateAccountXLM \<and>
   prepareBatchPayment demoEnv 9 ''SSEED'' (pay ''dave'' ''0.5'') =
     Some (\<lparr>mp_Username = ''dave'', mp_Direct = None, mp_Relay = None, mp_TxID = [],
            mp_Seqno = 0,
            mp_Error = Some ''you must send at least 1 XLM to fund the account for dave''\<rparr>, 9) \<and>
   LookupRecipient demoEnv (arg_Recipient (pay ''carol'' ''2.00'')) =
     Inr \<lparr>rcp_Input = ''carol'', rcp_User = Some ''carol-uv'', rcp_AccountID = None\<rparr> \<and>
   isAmountLessThanMin demoEnv (arg_Amount (pay ''carol'' ''2.00'')) minAmountRelayXLM \<and>
   prepareBatchPayment demoEnv 9 ''SSEED'' (pay ''carol'' ''2.00'') =
     Some (\<lparr>mp_Username = ''carol'', mp_Direct = None, mp_Relay = None, mp_TxID = [],
            mp_Seqno = 0,
            mp_Error = Some ''you must send at least 2.01 XLM to fund the account for carol''\<rparr>, 9) \<and>
   prepareAll demoEnv 9 ''SSEED'' [pay ''carol'' ''2.00'', pay ''alice'' ''5''] =
     Some ([\<lparr>mp_Username = ''carol'', mp_Direct = None, mp_Relay = None, mp_TxID = [],
             mp_Seqno = 0,
             mp_Error = Some ''you must send at least 2.01 XLM to fund the account for carol''\<rparr>,
            demoPreparedAlice], 10) \<and>
   prepareAll demoEnv 9 ''SSEED'' [pay ''alice'' ''5''] = Some ([demoPreparedAlice], 10)"
proof -
  have l1: "LookupRecipient demoEnv (arg_Recipient (pay ''dave'' ''0.5'')) =
     Inr \<lparr>rcp_Input = ''dave'', rcp_User = Some ''dave-uv'', rcp_AccountID = Some ''GDAVE''\<rparr>"
    by (simp add: demoEnv_def pay_def)
  have f1: "isAccountFunded demoEnv ''GDAVE'' = Inr False" by (simp add: demoEnv_def)
  have b1: "isAmountLessThanMin demoEnv (arg_Amount (pay ''dave'' ''0.5'')) minAmountCreateAccountXLM"
    by (simp add: demoEnv_def pay_def)
  have l2: "LookupRecipient demoEnv (arg_Recipient (pay ''carol'' ''2.00'')) =
     Inr \<lparr>rcp_Input = ''carol'', rcp_User = Some ''carol-uv'', rcp_AccountID = None\<rparr>"
    by (simp add: demoEnv_def pay_def)
  have b2: "isAmountLessThanMin demoEnv (arg_Amount (pay ''carol'' ''2.00'')) minAmountRelayXLM"
    by (simp add: demoEnv_def pay_def minAmountRelayXLM_def)
  have alice: "prepareAll demoEnv 9 ''SSEED'' [pay ''alice'' ''5''] = Some ([demoPreparedAlice], 10)"
    by (simp add: prepareBatchPayment_def prepareBatchPaymentDirect_def demoEnv_def pay_def
          demoPreparedAlice_def Let_def minAmountCreateAccountXLM_def)
  have d: "prepareBatchPayment demoEnv 9 ''SSEED'' (pay ''dave'' ''0.5'') =
     Some (\<lparr>mp_Username = ''dave'', mp_Direct = None, mp_Relay = None, mp_TxID = [],
            mp_Seqno = 0,
            mp_Error = Some ''you must send at least 1 XLM to fund the account for dave''\<rparr>, 9)"
    using C7_below_minimum_is_error_without_seqno [OF l1, of "''1''" _ 9 "''SSEED''" "[]" "[]"]
      f1 b1 by (simp add: demoEnv_def pay_def)
  have c: "prepareBatchPayment demoEnv 9 ''SSEED'' (pay ''carol'' ''2.00'') =
     Some (\<lparr>mp_Username = ''carol'', mp_Direct = None, mp_Relay = None, mp_TxID = [],
            mp_Seqno = 0,
            mp_Error = Some ''you must send at least 2.01 XLM to fund the account for carol''\<rparr>, 9)"
    and ca: "prepareAll demoEnv 9 ''SSEED'' [pay ''carol'' ''2.00'', pay ''alice'' ''5''] =
     Some ([\<lparr>mp_Username = ''carol'', mp_Direct = None, mp_Relay = None, mp_TxID = [],
             mp_Seqno = 0,
             mp_Error = Some ''you must send at least 2.01 XLM to fund the account for carol''\<rparr>,
            demoPreparedAlice], 10)"
    using C7_below_minimum_is_error_without_seqno
      [OF l2, of "''2.01''" _ 9 "''SSEED''" "[]" "[pay ''alice'' ''5'']"]
      b2 alice by (simp_all add: demoEnv_def pay_def)
  from l1 f1 b1 d l2 b2 c ca alice show ?thesis by simp
qed

text \<open>
  Claim C8. A payment whose recipient fails to resolve is prepared to an entry with the error "error looking up recipient", whatever the resolver's error was, and the preparation leaves the outside world (the sequence provider) as it was. The submit loop turns the entry into a result with status ERROR and that message without submitting anything. In a batch that returns with a nil error the prepared list holds the entry at least as often as the input holds the payment, and at every index of the entry the returned result has its username, status ERROR and the message.
\<close>

theorem C8_lookup_failure_is_error_result:
  assumes fails: "LookupRecipient env (arg_Recipient p) = Inl e"
    and entry: "entry =
        \<lparr>mp_Username = NewNormalizedUsername env (arg_Recipient p), mp_Direct = None,
         mp_Relay = None, mp_TxID = [], mp_Seqno = 0,
         mp_Error = Some ''error looking up recipient''\<rparr>"
  shows "prepareBatchPayment env w seed p = Some (entry, w) \<and>
         (\<exists>r st'. submitOne env acct entry i (rl, wt, st) = (rl[i := r], wt, st') \<and>
            world st' = world st \<and>
            bp_Username r = NewNormalizedUsername env (arg_Recipient p) \<and>
            bp_Status r = PaymentStatus_ERROR env \<and>
            bp_Error r = Some ''error looking up recipient'') \<and>
         (Batch env s arg sched arrival events = Some ((res, None), s') \<and>
          is_interleaving (length (arg_Payments arg)) sched \<and>
          is_interleaving (length (arg_Payments arg)) arrival \<longrightarrow>
            (\<exists>sender prepared w1.
               LookupSenderSeed env = Inr sender \<and>
               PrepareBatchPayments env (world s) (snd sender) (arg_Payments arg) sched arrival =
                 Some ((prepared, None), w1) \<and>
               count (mset (arg_Payments arg)) p \<le> count (mset prepared) (Some entry) \<and>
               (\<forall>j. j < length prepared \<and> prepared ! j = Some entry \<longrightarrow>
                  j < length (res_Payments res) \<and>
                  bp_Username (res_Payments res ! j) = NewNormalizedUsername env (arg_Recipient p) \<and>
                  bp_Status (res_Payments res ! j) = PaymentStatus_ERROR env \<and>
                  bp_Error (res_Payments res ! j) = Some ''error looking up recipient'')))"
proof (intro conjI impI)
  show one: "prepareBatchPayment env w seed p = Some (entry, w)" for w seed
    using prepareBatchPayment_lookup_failed [OF fails] entry by simp
  show "\<exists>r st'. submitOne env acct entry i (rl, wt, st) = (rl[i := r], wt, st') \<and>
            world st' = world st \<and>
            bp_Username r = NewNormalizedUsername env (arg_Recipient p) \<and>
            bp_Status r = PaymentStatus_ERROR env \<and>
            bp_Error r = Some ''error looking up recipient''"
    using submitOne_error_entry [of entry "''error looking up recipient''" env acct i rl wt st]
      entry by auto
  assume a: "Batch env s arg sched arrival events = Some ((res, None), s') \<and>
          is_interleaving (length (arg_Payments arg)) sched \<and>
          is_interleaving (length (arg_Payments arg)) arrival"
  then have run: "Batch env s arg sched arrival events = Some ((res, None), s')"
    and sched: "is_interleaving (length (arg_Payments arg)) sched"
    and arrival: "is_interleaving (length (arg_Payments arg)) arrival" by simp_all
  from Batch_Some [OF run] obtain sender prepared w1 rl' wt' s1 s2 ws0 ws where
    sender: "LookupSenderSeed env = Inr sender"
    and prep: "PrepareBatchPayments env (world s) (snd sender) (arg_Payments arg) sched arrival =
             Some ((prepared, None), w1)"
    and sub: "submitLoop env (fst sender) prepared 0
             (replicate (length prepared) zeroBatchPaymentResult, [], s1) = Inr (rl', wt', s2)"
    and ws0: "resultList ws0 = rl'" "waiting ws0 = wt'"
    and loop: "waitLoop env arg events ws0 = Some ws"
    and pay: "res_Payments res = resultList ws"
    by blast
  note inv = submitLoop_from_start [OF sub]
  have cnt: "count (mset (arg_Payments arg)) p \<le> count (mset prepared) (Some entry)"
    by (rule PrepareBatchPayments_count [OF prep sched arrival]) (simp add: one)
  have at: "j < length (res_Payments res) \<and>
              bp_Username (res_Payments res ! j) = NewNormalizedUsername env (arg_Recipient p) \<and>
              bp_Status (res_Payments res ! j) = PaymentStatus_ERROR env \<and>
              bp_Error (res_Payments res ! j) = Some ''error looking up recipient''"
    if j: "j < length prepared" and m: "prepared ! j = Some entry" for j
  proof -
    from submit_inv_final(6) [OF inv j, of "''error looking up recipient''"] m entry
    have notw: "j \<notin> snd ` set wt'" and rj: "bp_Status (rl' ! j) = PaymentStatus_ERROR env"
      "bp_Error (rl' ! j) = Some ''error looking up recipient''"
      "bp_Username (rl' ! j) = NewNormalizedUsername env (arg_Recipient p)" by auto
    have same: "resultList ws ! j = rl' ! j"
      using waitLoop_props(5) [OF loop, of j] notw ws0 by simp
    have "j < length (res_Payments res)"
      using waitLoop_props(1) [OF loop] submit_inv_final(1) [OF inv] ws0 pay j by simp
    with same rj pay show ?thesis by simp
  qed
  from sender prep cnt at show "\<exists>sender prepared w1.
               LookupSenderSeed env = Inr sender \<and>
               PrepareBatchPayments env (world s) (snd sender) (arg_Payments arg) sched arrival =
                 Some ((prepared, None), w1) \<and>
               count (mset (arg_Payments arg)) p \<le> count (mset prepared) (Some entry) \<and>
               (\<forall>j. j < length prepared \<and> prepared ! j = Some entry \<longrightarrow>
                  j < length (res_Payments res) \<and>
                  bp_Username (res_Payments res ! j) = NewNormalizedUsername env (arg_Recipient p) \<and>
                  bp_Status (res_Payments res ! j) = PaymentStatus_ERROR env \<and>
                  bp_Error (res_Payments res ! j) = Some ''error looking up recipient'')"
    by blast
qed

text \<open>
  Claim C8, witness: bob's payment in the batch of alice and bob.
\<close>

theorem C8_witness:
  "LookupRecipient demoEnv (arg_Recipient (pay ''bob'' ''5'')) = Inl ''no such user'' \<and>
   prepareBatchPayment demoEnv 9 ''SSEED'' (pay ''bob'' ''5'') = Some (demoPreparedBob, 9) \<and>
   Batch demoEnv demoState demoArg [0, 1] [0, 1] demoEvents = Some ((demoResult, None), demoFinal) \<and>
   is_interleaving (length (arg_Payments demoArg)) [0, 1] \<and>
   PrepareBatchPayments demoEnv (world demoState) ''SSEED'' (arg_Payments demoArg) [0, 1] [0, 1] =
     Some (([Some demoPreparedBob, Some demoPreparedAlice], None), 10) \<and>
   count (mset (arg_Payments demoArg)) (pay ''bob'' ''5'') = 1 \<and>
   bp_Username (res_Payments demoResult ! 0) = ''bob'' \<and>
   bp_Status (res_Payments demoResult ! 0) = PaymentStatus_ERROR demoEnv \<and>
   bp_Error (res_Payments demoResult ! 0) = Some ''error looking up recipient''"
proof -
  have f: "LookupRecipient demoEnv (arg_Recipient (pay ''bob'' ''5'')) = Inl ''no such user''"
    by (simp add: demoEnv_def pay_def)
  have e: "demoPreparedBob =
        \<lparr>mp_Username = NewNormalizedUsername demoEnv (arg_Recipient (pay ''bob'' ''5'')),
         mp_Direct = None, mp_Relay = None, mp_TxID = [], mp_Seqno = 0,
         mp_Error = Some ''error looking up recipient''\<rparr>"
    by (simp add: demoPreparedBob_def demoEnv_def pay_def)
  have prep: "PrepareBatchPayments demoEnv (world demoState) ''SSEED'' (arg_Payments demoArg)
                [0, 1] [0, 1] = Some (([Some demoPreparedBob, Some demoPreparedAlice], None), 10)"
    using demo_prepare by (simp add: demoArg_def demoState_def)
  have c: "count (mset (arg_Payments demoArg)) (pay ''bob'' ''5'') = 1"
    by (simp add: demoArg_def demoPayments_def pay_def)
  note t = C8_lookup_failure_is_error_result [OF f e, of 9 "''SSEED''" _ _ _ _ _ demoState demoArg
      "[0, 1]" "[0, 1]" demoEvents demoResult demoFinal]
  from t have p1: "prepareBatchPayment demoEnv 9 ''SSEED'' (pay ''bob'' ''5'') =
      Some (demoPreparedBob, 9)" by blast
  from t demo_batch demo_interleaving_arg
  obtain sender prepared w1 where
    sender: "LookupSenderSeed demoEnv = Inr sender"
    and prep': "PrepareBatchPayments demoEnv (world demoState) (snd sender) (arg_Payments demoArg)
                  [0, 1] [0, 1] = Some ((prepared, None), w1)"
    and at: "\<forall>j. j < length prepared \<and> prepared ! j = Some demoPreparedBob \<longrightarrow>
                  j < length (res_Payments demoResult) \<and>
                  bp_Username (res_Payments demoResult ! j) =
                    NewNormalizedUsername demoEnv (arg_Recipient (pay ''bob'' ''5'')) \<and>
                  bp_Status (res_Payments demoResult ! j) = PaymentStatus_ERROR demoEnv \<and>
                  bp_Error (res_Payments demoResult ! j) = Some ''error looking up recipient''"
    by blast
  from sender have "snd sender = ''SSEED''" by (auto simp: demoEnv_def)
  with prep prep' have "prepared = [Some demoPreparedBob, Some demoPreparedAlice]" by simp
  with at [rule_format, of 0]
  have "bp_Username (res_Payments demoResult ! 0) = ''bob'' \<and>
        bp_Status (res_Payments demoResult ! 0) = PaymentStatus_ERROR demoEnv \<and>
        bp_Error (res_Payments demoResult ! 0) = Some ''error looking up recipient''"
    by (simp add: demoEnv_def pay_def)
  with f p1 demo_batch demo_interleaving_arg prep c show ?thesis by simp
qed

text \<open>
  Claim C9. If the sender lookup fails, Batch returns that error with a result that has no payments and zero counters; the outside world is as before the call (nothing was prepared or submitted) and no chat message was sent.
\<close>

theorem C9_sender_lookup_failure:
  assumes "LookupSenderSeed env = Inl err"
  shows "\<exists>res s'. Batch env s arg sched arrival events = Some ((res, Some err), s') \<and>
           res_Payments res = [] \<and>
           res_CountSuccess res = 0 \<and> res_CountPending res = 0 \<and> res_CountError res = 0 \<and>
           world s' = world s \<and> chatsSent s' = chatsSent s"
  using assms
  by (auto simp: Batch_def Let_def deferEndTime_def time_Now_def zeroBatchResultLocal_def)

text \<open>
  Claim C9, witness: the demo batch with a sender whose seed cannot be looked up.
\<close>

theorem C9_witness:
  "LookupSenderSeed noWalletEnv = Inl ''no wallet'' \<and>
   (\<exists>res s'. Batch noWalletEnv demoState demoArg [0, 1] [0, 1] demoEvents =
                Some ((res, Some ''no wallet''), s') \<and>
      res_Payments res = [] \<and> world s' = world demoState \<and> chatsSent s' = chatsSent demoState)"
proof -
  have f: "LookupSenderSeed noWalletEnv = Inl ''no wallet''"
    by (simp add: noWalletEnv_def)
  from C9_sender_lookup_failure [OF f, of demoState demoArg "[0, 1]" "[0, 1]" demoEvents] f
  show ?thesis by blast
qed

text \<open>
  Claim C10, the code at a failing input. A recipient that resolves to an account id without a user record takes the direct path, where the literal of the post dereferences the nil user; the goroutine panics, and neither PrepareBatchPayments nor Batch returns.
\<close>

theorem C10_preparation_panics_without_user:
  "LookupRecipient rawAccountEnv (arg_Recipient (pay ''GALICE'' ''5'')) =
     Inr \<lparr>rcp_Input = ''GALICE'', rcp_User = None, rcp_AccountID = Some ''GALICE''\<rparr> \<and>
   isAccountFunded rawAccountEnv ''GALICE'' = Inr True \<and>
   prepareBatchPayment rawAccountEnv 9 ''SSEED'' (pay ''GALICE'' ''5'') = None \<and>
   PrepareBatchPayments rawAccountEnv 9 ''SSEED'' [pay ''GALICE'' ''5''] [0] [0] = None \<and>
   Batch rawAccountEnv demoState rawAccountArg [0] [0] [] = None"
  using demo_batch_raw by (simp add: rawAccountEnv_def demoEnv_def pay_def)

end
